theory Spec2Isabelle
  imports Main
begin

section \<open>Time-tracking commands of the tempo CLI (commands.ts, daemon/client.ts)\<close>

text \<open>
  The development follows \<^verbatim>\<open>src/commands.ts\<close> (the in-process tracking commands)
  and \<^verbatim>\<open>src/daemon/client.ts\<close> (the daemon liveness probe).
  Asynchronous calls to the outside world (the clock, git, the prompt, the daemon, the Tempo
  service) are inputs of the modelled functions; module-level variables and the stored
  configuration are threaded through as explicit state.
\<close>

subsection \<open>Timestamps\<close>

text \<open>
  The source stores every instant as the string \<^verbatim>\<open>new Date().toISOString()\<close> and reads it back
  with \<^verbatim>\<open>new Date(s).getTime()\<close>. The model stores the instant itself (milliseconds since the
  epoch, an integer) and renders the ISO-8601 text where the source inspects the text.
\<close>

definition digit :: "int \<Rightarrow> char" where
  "digit k = ''0123456789'' ! nat (k mod 10)"

definition pad2 :: "int \<Rightarrow> string" where
  "pad2 n = [digit (n div 10), digit n]"

definition pad3 :: "int \<Rightarrow> string" where
  "pad3 n = [digit (n div 100), digit (n div 10), digit n]"

definition pad4 :: "int \<Rightarrow> string" where
  "pad4 n = [digit (n div 1000), digit (n div 100), digit (n div 10), digit n]"

definition pad6 :: "int \<Rightarrow> string" where
  "pad6 n = [digit (n div 100000), digit (n div 10000)] @ pad4 n"

text \<open>Year, month and day of a day count since 1970-01-01 (proleptic Gregorian calendar).\<close>

definition civil_from_days :: "int \<Rightarrow> int \<times> int \<times> int" where
  "civil_from_days days =
     (let z = days + 719468;
          era = z div 146097;
          doe = z mod 146097;
          yoe = (doe - doe div 1460 + doe div 36524 - doe div 146096) div 365;
          doy = doe - (365 * yoe + yoe div 4 - yoe div 100);
          mp = (5 * doy + 2) div 153;
          d = doy - (153 * mp + 2) div 5 + 1;
          m = (if mp < 10 then mp + 3 else mp - 9);
          y = yoe + era * 400 + (if m \<le> 2 then 1 else 0)
      in (y, m, d))"

definition isoYear :: "int \<Rightarrow> string" where
  "isoYear y =
     (if 0 \<le> y \<and> y \<le> 9999 then pad4 y
      else if y < 0 then CHR ''-'' # pad6 (- y)
      else CHR ''+'' # pad6 y)"

text \<open>\<^verbatim>\<open>Date.prototype.toISOString\<close>: \<^verbatim>\<open>YYYY-MM-DDTHH:mm:ss.sssZ\<close>, in UTC.\<close>

definition toISOString :: "int \<Rightarrow> string" where
  "toISOString t =
     (let ms = t mod 86400000;
          ymd = civil_from_days (t div 86400000)
      in isoYear (fst ymd) @ ''-'' @ pad2 (fst (snd ymd)) @ ''-'' @ pad2 (snd (snd ymd))
         @ ''T'' @ pad2 (ms div 3600000) @ '':'' @ pad2 (ms div 60000 mod 60)
         @ '':'' @ pad2 (ms div 1000 mod 60) @ ''.'' @ pad3 (ms mod 1000) @ ''Z'')"

text \<open>\<^verbatim>\<open>s.startsWith(p)\<close>.\<close>

definition startsWith :: "string \<Rightarrow> string \<Rightarrow> bool" where
  "startsWith s p = (take (length p) s = p)"

text \<open>\<^verbatim>\<open>Math.round(ms / unit)\<close> for an integer \<open>ms\<close>: halves round towards plus infinity.\<close>

definition roundDiv :: "int \<Rightarrow> int \<Rightarrow> int" where
  "roundDiv ms unit = (2 * ms + unit) div (2 * unit)"

text \<open>
  The remainder operator \<^verbatim>\<open>a % b\<close> on integers: the quotient is truncated towards zero, so
  the result has the sign of \<open>a\<close> (\<^verbatim>\<open>-1 % 60\<close> is \<^verbatim>\<open>-1\<close>).
\<close>

definition jsRem :: "int \<Rightarrow> int \<Rightarrow> int" where
  "jsRem a b = sgn a * (\<bar>a\<bar> mod \<bar>b\<bar>)"

subsection \<open>Data model\<close>

text \<open>
  The value of an \<^verbatim>\<open>issueId\<close> field: absent, a number (from the command line), or the text
  typed at the prompt of \<^verbatim>\<open>syncTempo\<close>. \<open>issueTruthy\<close> is JavaScript truthiness, as used by
  \<^verbatim>\<open>if (issueId)\<close>, \<^verbatim>\<open>!issueId\<close> and \<^verbatim>\<open>issueId || 0\<close>.
\<close>

datatype issue = IssueUndefined | IssueNum int | IssueStr string

fun issueTruthy :: "issue \<Rightarrow> bool" where
  "issueTruthy IssueUndefined = False"
| "issueTruthy (IssueNum n) = (n \<noteq> 0)"
| "issueTruthy (IssueStr s) = (s \<noteq> [])"

text \<open>Truthiness of an optional string (\<^verbatim>\<open>undefined\<close> and \<^verbatim>\<open>""\<close> are falsy).\<close>

fun strTruthy :: "string option \<Rightarrow> bool" where
  "strTruthy None = False"
| "strTruthy (Some s) = (s \<noteq> [])"

text \<open>\<^verbatim>\<open>config.activeTracking\<close>: the open head of the current session.\<close>

record tracking =
  tr_branch :: string
  tr_directory :: string
  tr_startTime :: int
  tr_issueId :: issue
  tr_description :: "string option"

text \<open>An element of the activity log.\<close>

record activity =
  act_id :: nat
  act_branch :: string
  act_directory :: string
  act_startTime :: int
  act_endTime :: "int option"
  act_issueId :: issue
  act_description :: "string option"
  act_synced :: bool

text \<open>The stored configuration, with the activity log kept beside it.\<close>

record config =
  apiKey :: "string option"
  jiraAccountId :: "string option"
  tempoBaseUrl :: string
  activeTracking :: "tracking option"
  activityLog :: "activity list"

text \<open>
  The handle returned by \<^verbatim>\<open>setTimeout\<close>: the timeout is pending and due at an instant, or
  it has fired. A timeout fires once; the variable that holds its handle keeps it afterwards.
\<close>

datatype timeout = Pending int | Fired

text \<open>
  The process: the store and the module-level variables of commands.ts.
  \<open>activeCheckInterval\<close> and \<open>activePulseInterval\<close> say whether the interval handle is set;
  \<open>autoStopTimer\<close> is \<open>None\<close> for \<^verbatim>\<open>null\<close> and holds the handle of the timeout otherwise.
\<close>

record world =
  store :: config
  activeCheckInterval :: bool
  activePulseInterval :: bool
  autoStopTimer :: "timeout option"

datatype error =
    NotInGitRepository
  | GitError
  | DaemonNotRunning
  | DaemonRequestFailed
  | SessionNotFoundAfterStart
  | RemoteError
  | PromptClosed
  | JiraAccountNotConfigured

subsection \<open>The store (config.ts)\<close>

text \<open>
  Modelled from the spec: config.ts is not part of the sources at hand. The Activity Log Store
  offers \<^verbatim>\<open>append(entry) -> id\<close>, \<^verbatim>\<open>update(id, partial)\<close> and \<^verbatim>\<open>query\<close>; an entry gets
  a unique identifier at creation and starts with \<^verbatim>\<open>synced = false\<close>. \<^verbatim>\<open>getConfig\<close> reads the
  stored record, \<^verbatim>\<open>updateConfig({activeTracking: v})\<close> replaces that key, \<^verbatim>\<open>getActivityLog\<close>
  returns the log in the order of insertion.
\<close>

definition freshId :: "activity list \<Rightarrow> nat" where
  "freshId log = Suc (fold max (map act_id log) 0)"

definition addActivityLog ::
  "string \<Rightarrow> string \<Rightarrow> int \<Rightarrow> int option \<Rightarrow> issue \<Rightarrow> string option \<Rightarrow> config \<Rightarrow> config" where
  "addActivityLog br dir st en iss desc c =
     c\<lparr>activityLog := activityLog c @
        [\<lparr>act_id = freshId (activityLog c), act_branch = br, act_directory = dir,
          act_startTime = st, act_endTime = en, act_issueId = iss,
          act_description = desc, act_synced = False\<rparr>]\<rparr>"

definition updateActivityLog :: "nat \<Rightarrow> (activity \<Rightarrow> activity) \<Rightarrow> config \<Rightarrow> config" where
  "updateActivityLog i partial c =
     c\<lparr>activityLog := map (\<lambda>a. if act_id a = i then partial a else a) (activityLog c)\<rparr>"

subsection \<open>Timers\<close>

text \<open>\<^verbatim>\<open>MAX_TRACKING_TIME_MS = 8 * 60 * 60 * 1000\<close>, \<^verbatim>\<open>PULSE_INTERVAL_MS = 5 * 60 * 1000\<close>.\<close>

definition MAX_TRACKING_TIME_MS :: int where
  "MAX_TRACKING_TIME_MS = 8 * 60 * 60 * 1000"

definition PULSE_INTERVAL_MS :: int where
  "PULSE_INTERVAL_MS = 5 * 60 * 1000"

definition stopBranchChecks :: "world \<Rightarrow> world" where
  "stopBranchChecks w = (if activeCheckInterval w then w\<lparr>activeCheckInterval := False\<rparr> else w)"

definition startBranchChecks :: "world \<Rightarrow> world" where
  "startBranchChecks w = (stopBranchChecks w)\<lparr>activeCheckInterval := True\<rparr>"

text \<open>
  \<^verbatim>\<open>scheduleAutoStop\<close>: a timeout held by the variable is cleared, and the variable gets the
  handle of a new one; \<^verbatim>\<open>setTimeout(f, MAX_TRACKING_TIME_MS)\<close> called at instant \<open>now\<close> is due at
  \<open>now + MAX_TRACKING_TIME_MS\<close>.
\<close>

definition scheduleAutoStop :: "world \<Rightarrow> int \<Rightarrow> world" where
  "scheduleAutoStop w now = w\<lparr>autoStopTimer := Some (Pending (now + MAX_TRACKING_TIME_MS))\<rparr>"

definition cancelAutoStop :: "world \<Rightarrow> world" where
  "cancelAutoStop w = (if autoStopTimer w \<noteq> None then w\<lparr>autoStopTimer := None\<rparr> else w)"

definition stopPulseSending :: "world \<Rightarrow> world" where
  "stopPulseSending w = (if activePulseInterval w then w\<lparr>activePulseInterval := False\<rparr> else w)"

subsection \<open>Branch polling\<close>

text \<open>
  \<^verbatim>\<open>checkCurrentBranch\<close>, the callback of the 15-minute interval. \<open>now\<close> is the value of
  \<^verbatim>\<open>new Date()\<close>, \<open>git\<close> the outcome of \<^verbatim>\<open>getCurrentBranch(directory)\<close>; a failure of git is
  caught and logged.
\<close>

definition checkCurrentBranch :: "world \<Rightarrow> int \<Rightarrow> error + string \<Rightarrow> world" where
  "checkCurrentBranch w now git =
     (case activeTracking (store w) of
        None \<Rightarrow> stopBranchChecks w
      | Some t \<Rightarrow>
          (case git of
             Inl e \<Rightarrow> w
           | Inr currentBranch \<Rightarrow>
               if currentBranch \<noteq> tr_branch t then
                 let endTime = now;
                     c1 = addActivityLog (tr_branch t) (tr_directory t) (tr_startTime t)
                            (Some endTime) (tr_issueId t) (tr_description t) (store w);
                     c2 = c1\<lparr>activeTracking :=
                             Some (t\<lparr>tr_branch := currentBranch, tr_startTime := endTime\<rparr>)\<rparr>
                 in w\<lparr>store := c2\<rparr>
               else w))"

text \<open>The interval fires its callback only while its handle is set.\<close>

definition branchPollFires :: "world \<Rightarrow> int \<Rightarrow> error + string \<Rightarrow> world" where
  "branchPollFires w now git = (if activeCheckInterval w then checkCurrentBranch w now git else w)"

subsection \<open>The daemon liveness probe (daemon/client.ts)\<close>






text \<open>
  The callers below (\<^verbatim>\<open>startTracking\<close>, \<^verbatim>\<open>stopTracking\<close>, \<^verbatim>\<open>statusTracking\<close>, \<^verbatim>\<open>syncTempo\<close>)
  await the probe inside a \<^verbatim>\<open>try\<close> block; like every other awaited call, the probe enters
  their inputs with the result it settled with: \<open>Inr running\<close>, or \<open>Inl e\<close> when it was rejected.
  A caller whose probe never settles does not get past it.
\<close>

subsection \<open>Heartbeats\<close>

record pulse =
  p_branch :: string
  p_issueId :: issue
  p_description :: "string option"
  p_apiKey :: "string option"
  p_tempoBaseUrl :: string

text \<open>
  \<^verbatim>\<open>sendPulse\<close>. \<open>remote\<close> is the outcome of \<^verbatim>\<open>sendTempoPulseDirect\<close>. The result is what
  the caller sees (an error would be a rejected promise), the state, and the requests made.
\<close>

definition sendPulse :: "world \<Rightarrow> error + unit \<Rightarrow> (error + unit) \<times> world \<times> pulse list" where
  "sendPulse w remote =
     (let config = store w in
      if \<not> strTruthy (apiKey config) \<or> \<not> strTruthy (jiraAccountId config) then (Inr (), w, [])
      else
        (case activeTracking config of
           None \<Rightarrow> (Inr (), w, [])
         | Some t \<Rightarrow>
             (let req = \<lparr>p_branch = tr_branch t, p_issueId = tr_issueId t,
                         p_description = tr_description t, p_apiKey = apiKey config,
                         p_tempoBaseUrl = tempoBaseUrl config\<rparr>
              in case remote of
                   Inr u \<Rightarrow> (Inr (), w, [req])
                 | Inl e \<Rightarrow> (Inr (), w, [req]))))"

text \<open>\<^verbatim>\<open>startPulseSending\<close>: an immediate pulse, whose failure is caught, then the interval.\<close>

definition startPulseSending :: "world \<Rightarrow> error + unit \<Rightarrow> (error + unit) \<times> world \<times> pulse list" where
  "startPulseSending w remote =
     (if \<not> activePulseInterval w then
        (case sendPulse w remote of
           (Inr u, w1, reqs) \<Rightarrow> (Inr (), w1\<lparr>activePulseInterval := True\<rparr>, reqs)
         | (Inl e, w1, reqs) \<Rightarrow> (Inr (), w1\<lparr>activePulseInterval := True\<rparr>, reqs))
      else (Inr (), w, []))"

text \<open>A tick of \<^verbatim>\<open>setInterval(sendPulse, PULSE_INTERVAL_MS)\<close>.\<close>

definition pulseTick :: "world \<Rightarrow> error + unit \<Rightarrow> (error + unit) \<times> world \<times> pulse list" where
  "pulseTick w remote = (if activePulseInterval w then sendPulse w remote else (Inr (), w, []))"

subsection \<open>stopTracking\<close>

text \<open>
  The inputs of \<^verbatim>\<open>stopTracking\<close>: the result of the probe, the result of \<^verbatim>\<open>findGitRoot\<close>,
  the outcome of \<^verbatim>\<open>stopTrackingViaDaemon\<close>, and the value of \<^verbatim>\<open>new Date()\<close>.
\<close>

record stop_env =
  st_probe :: "error + bool"
  st_gitRoot :: "string option"
  st_stopVia :: "error + unit"
  st_now :: int

datatype stop_outcome = StoppedViaDaemon | NoActiveSession | Stopped string int

text \<open>
  The first part of \<^verbatim>\<open>stopTracking\<close>: the stop is left to the daemon when the probe returns
  \<^verbatim>\<open>true\<close>, the working directory is inside a repository and \<^verbatim>\<open>stopTrackingViaDaemon\<close> does
  not throw. An error thrown on the way, also by the probe, is caught.
\<close>

definition stopViaDaemon :: "stop_env \<Rightarrow> bool" where
  "stopViaDaemon env =
     (case st_probe env of
        Inl e \<Rightarrow> False
      | Inr running \<Rightarrow>
          if running then
            (case st_gitRoot env of
               None \<Rightarrow> False
             | Some gitRoot \<Rightarrow> (case st_stopVia env of Inr u \<Rightarrow> True | Inl e \<Rightarrow> False))
          else False)"

definition stopTracking_local :: "world \<Rightarrow> int \<Rightarrow> stop_outcome \<times> world" where
  "stopTracking_local w now =
     (case activeTracking (store w) of
        None \<Rightarrow> (NoActiveSession, w)
      | Some t \<Rightarrow>
          (let durationMinutes = roundDiv (now - tr_startTime t) 60000;
               c1 = addActivityLog (tr_branch t) (tr_directory t) (tr_startTime t)
                      (Some now) (tr_issueId t) (tr_description t) (store w);
               c2 = c1\<lparr>activeTracking := None\<rparr>;
               w1 = cancelAutoStop (stopPulseSending (stopBranchChecks (w\<lparr>store := c2\<rparr>)))
           in (Stopped (tr_branch t) durationMinutes, w1)))"

definition stopTracking :: "world \<Rightarrow> stop_env \<Rightarrow> stop_outcome \<times> world" where
  "stopTracking w env =
     (if stopViaDaemon env then (StoppedViaDaemon, w) else stopTracking_local w (st_now env))"

text \<open>
  The auto-stop timeout at instant \<open>firedAt\<close>: a timeout that is pending and due fires, once,
  and its callback (lines 601 to 604) runs the whole of \<^verbatim>\<open>stopTracking\<close>; \<open>st_now env\<close> is the
  instant \<^verbatim>\<open>stopTracking\<close> reads from the clock afterwards. Nothing happens when no timeout
  is pending or the pending one is not due yet.
\<close>

definition autoStopFires :: "world \<Rightarrow> int \<Rightarrow> stop_env \<Rightarrow> world" where
  "autoStopFires w firedAt env =
     (case autoStopTimer w of
        None \<Rightarrow> w
      | Some Fired \<Rightarrow> w
      | Some (Pending due) \<Rightarrow>
          if due \<le> firedAt then snd (stopTracking (w\<lparr>autoStopTimer := Some Fired\<rparr>) env) else w)"

subsection \<open>startTracking\<close>

record options =
  opt_description :: "string option"
  opt_issueId :: "int option"

text \<open>An element of \<^verbatim>\<open>StatusResponse.activeSessions\<close>.\<close>

record session =
  s_directory :: string
  s_branch :: string
  s_startTime :: int
  s_issueId :: issue
  s_description :: "string option"

datatype ipc_method = ReqStatus | ReqStartTracking | ReqStopTracking | ReqSyncTempo

text \<open>
  The inputs of \<^verbatim>\<open>startTracking\<close>, in the order of their use: the result of \<^verbatim>\<open>findGitRoot\<close>;
  the result of the probe; on the daemon path the outcomes of \<^verbatim>\<open>getCurrentBranch\<close>,
  \<^verbatim>\<open>getStatusFromDaemon\<close>, \<^verbatim>\<open>startTrackingViaDaemon\<close> and the second \<^verbatim>\<open>getStatusFromDaemon\<close>;
  on the local path the answer at the confirmation prompt (an error when the prompt is closed
  without one, which rejects \<^verbatim>\<open>inquirer.prompt\<close>), the inputs of the nested
  \<^verbatim>\<open>stopTracking\<close>, the outcome of \<^verbatim>\<open>getCurrentBranch\<close>, the value of \<^verbatim>\<open>new Date()\<close> at
  line 186, the outcome of the immediate heartbeat, and the instant at which
  \<^verbatim>\<open>scheduleAutoStop\<close> calls \<^verbatim>\<open>setTimeout\<close>.
\<close>

record start_env =
  se_gitRoot :: "string option"
  se_probe :: "error + bool"
  se_daemonBranch :: "error + string"
  se_status :: "error + session list"
  se_startVia :: "error + unit"
  se_verify :: "error + session list"
  se_shouldContinue :: "error + bool"
  se_stop :: stop_env
  se_branch :: "error + string"
  se_now :: int
  se_pulse :: "error + unit"
  se_armedAt :: int

datatype start_outcome =
    AlreadyTrackedByDaemon session
  | StartedViaDaemon
  | AlreadyTrackedLocally tracking
  | Started

text \<open>
  Lines 63 to 152: the attempt through the daemon. The result is \<open>None\<close> when control falls
  through to local tracking (probe negative, or an error caught on the way); the second
  component lists the requests sent to the daemon after the probe.
\<close>

definition startTracking_daemon ::
  "start_env \<Rightarrow> string \<Rightarrow> start_outcome option \<times> ipc_method list" where
  "startTracking_daemon env gitRoot =
     (if se_probe env \<noteq> Inr True then (None, [])
      else
        (case se_daemonBranch env of
           Inl e \<Rightarrow> (None, [])
         | Inr branch \<Rightarrow>
             (case se_status env of
                Inl e \<Rightarrow> (None, [ReqStatus])
              | Inr daemonStatus \<Rightarrow>
                  (case find (\<lambda>s. s_directory s = gitRoot) daemonStatus of
                     Some active \<Rightarrow> (Some (AlreadyTrackedByDaemon active), [ReqStatus])
                   | None \<Rightarrow>
                       (case se_startVia env of
                          Inl e \<Rightarrow> (None, [ReqStatus, ReqStartTracking])
                        | Inr u \<Rightarrow>
                            (case se_verify env of
                               Inl e \<Rightarrow> (None, [ReqStatus, ReqStartTracking, ReqStatus])
                             | Inr verifyStatus \<Rightarrow>
                                 if list_ex (\<lambda>s. s_directory s = gitRoot \<and> s_branch s = branch)
                                      verifyStatus
                                 then (Some StartedViaDaemon,
                                       [ReqStatus, ReqStartTracking, ReqStatus])
                                 else (None, [ReqStatus, ReqStartTracking, ReqStatus])))))))"

text \<open>Lines 182 to 216: a new session is written to the store and the timers are started.\<close>

definition startSession ::
  "world \<Rightarrow> options \<Rightarrow> start_env \<Rightarrow> string \<Rightarrow> (error + start_outcome) \<times> world" where
  "startSession w opts env gitRoot =
     (case se_branch env of
        Inl e \<Rightarrow> (Inl e, w)
      | Inr branch \<Rightarrow>
          (let startTime = se_now env;
               t = \<lparr>tr_branch = branch, tr_directory = gitRoot, tr_startTime = startTime,
                    tr_issueId = IssueNum (case opt_issueId opts of
                                             None \<Rightarrow> 0
                                           | Some n \<Rightarrow> if n \<noteq> 0 then n else 0),
                    tr_description = opt_description opts\<rparr>;
               w1 = w\<lparr>store := (store w)\<lparr>activeTracking := Some t\<rparr>\<rparr>;
               w2 = startBranchChecks w1;
               w3 = fst (snd (startPulseSending w2 (se_pulse env)));
               w4 = scheduleAutoStop w3 (se_armedAt env)
           in case fst (startPulseSending w2 (se_pulse env)) of
                Inl e \<Rightarrow> (Inl e, w3)
              | Inr u \<Rightarrow> (Inr Started, w4)))"

text \<open>Lines 154 to 216: local tracking.\<close>

definition startTracking_local ::
  "world \<Rightarrow> options \<Rightarrow> start_env \<Rightarrow> string \<Rightarrow> (error + start_outcome) \<times> world" where
  "startTracking_local w opts env gitRoot =
     (case activeTracking (store w) of
        Some t \<Rightarrow>
          (case se_shouldContinue env of
             Inl e \<Rightarrow> (Inl e, w)
           | Inr shouldContinue \<Rightarrow>
               if shouldContinue
               then startSession (snd (stopTracking w (se_stop env))) opts env gitRoot
               else (Inr (AlreadyTrackedLocally t), w))
      | None \<Rightarrow> startSession w opts env gitRoot)"

definition startTracking ::
  "world \<Rightarrow> options \<Rightarrow> start_env \<Rightarrow> (error + start_outcome) \<times> world" where
  "startTracking w opts env =
     (case se_gitRoot env of
        None \<Rightarrow> (Inl NotInGitRepository, w)
      | Some gitRoot \<Rightarrow>
          (case fst (startTracking_daemon env gitRoot) of
             Some outcome \<Rightarrow> (Inr outcome, w)
           | None \<Rightarrow> startTracking_local w opts env gitRoot))"

subsection \<open>A tracking lifetime on the local path\<close>

fun runPolls :: "world \<Rightarrow> (int \<times> (error + string)) list \<Rightarrow> world" where
  "runPolls w [] = w"
| "runPolls w ((now, git) # polls) = runPolls (branchPollFires w now git) polls"

text \<open>The entries appended to the log of \<open>w\<close> on the way to \<open>w'\<close>.\<close>

definition produced :: "world \<Rightarrow> world \<Rightarrow> activity list" where
  "produced w w' = drop (length (activityLog (store w))) (activityLog (store w'))"

text \<open>
  A list of entries that starts at instant \<open>s\<close>, ends at instant \<open>e\<close>, and in which every
  entry ends where the next one starts.
\<close>

fun chain :: "int \<Rightarrow> activity list \<Rightarrow> int \<Rightarrow> bool" where
  "chain s [] e = (s = e)"
| "chain s (a # as) e =
     (act_startTime a = s \<and>
      (case act_endTime a of None \<Rightarrow> False | Some m \<Rightarrow> chain m as e))"

subsection \<open>statusTracking\<close>

datatype line =
    LRepository string
  | LBranch string
  | LStarted int
  | LIssue issue
  | LDescription string
  | LDuration int int
  | LDifferentBranch string string
  | LNoActiveSession

record status_env =
  su_probe :: "error + bool"
  su_status :: "error + session list"
  su_now :: int
  su_gitRoot :: "string option"
  su_branch :: "error + string"

text \<open>Lines 293 to 319: one session reported by the daemon.\<close>

definition showDaemonSession :: "int \<Rightarrow> session \<Rightarrow> line list" where
  "showDaemonSession now s =
     [LRepository (s_directory s), LBranch (s_branch s), LStarted (s_startTime s)]
     @ (if issueTruthy (s_issueId s) then [LIssue (s_issueId s)] else [])
     @ (case s_description s of
          None \<Rightarrow> []
        | Some d \<Rightarrow> if d \<noteq> [] then [LDescription d] else [])
     @ (let durationMinutes = roundDiv (now - s_startTime s) 60000
        in [LDuration (durationMinutes div 60) (jsRem durationMinutes 60)])"

text \<open>Lines 332 to 385: the session of the local store.\<close>

definition showLocalSession :: "status_env \<Rightarrow> tracking \<Rightarrow> line list" where
  "showLocalSession env t =
     [LBranch (tr_branch t), LStarted (tr_startTime t)]
     @ (let durationMinutes = roundDiv (su_now env - tr_startTime t) 60000
        in [LDuration (durationMinutes div 60) (jsRem durationMinutes 60)])
     @ (if issueTruthy (tr_issueId t) then [LIssue (tr_issueId t)] else [])
     @ (case tr_description t of
          None \<Rightarrow> []
        | Some d \<Rightarrow> if d \<noteq> [] then [LDescription d] else [])
     @ (case su_gitRoot env of
          None \<Rightarrow> []
        | Some gitRoot \<Rightarrow>
            (case su_branch env of
               Inl e \<Rightarrow> []
             | Inr currentBranch \<Rightarrow>
                 if currentBranch \<noteq> tr_branch t
                 then [LDifferentBranch (tr_branch t) currentBranch] else []))"



subsection \<open>syncTempo\<close>

text \<open>The argument of \<^verbatim>\<open>createTempoWorklog\<close>.\<close>

record worklog =
  wl_issueId :: issue
  wl_timeSpentSeconds :: int
  wl_startDate :: string
  wl_startTime :: string
  wl_description :: string
  wl_authorAccountId :: "string option"

text \<open>
  The inputs of \<^verbatim>\<open>syncTempo\<close>. For the entry with identifier \<open>i\<close>, \<open>sy_answers env i\<close> is
  what is typed at the issue prompt, one attempt after the other, and \<open>sy_remote env i\<close> is
  the outcome of \<^verbatim>\<open>createTempoWorklog\<close>.
\<close>

record sync_env =
  sy_probe :: "error + bool"
  sy_syncVia :: "error + unit"
  sy_answers :: "nat \<Rightarrow> string list"
  sy_remote :: "nat \<Rightarrow> error + unit"

text \<open>
  The prompt with \<^verbatim>\<open>validate: (input) => !!input || ...\<close> returns the first input that is
  not empty; it rejects when it is closed before that.
\<close>

definition promptIssueId :: "string list \<Rightarrow> error + string" where
  "promptIssueId inputs =
     (case find (\<lambda>input. input \<noteq> []) inputs of
        None \<Rightarrow> Inl PromptClosed
      | Some providedIssueId \<Rightarrow> Inr providedIssueId)"

text \<open>
  The state of the loop: the store, the two counters, and the submissions made so far
  (identifier of the entry, request, whether it succeeded).
\<close>

record sync_acc =
  sa_store :: config
  sa_success :: nat
  sa_fail :: nat
  sa_sent :: "(nat \<times> worklog \<times> bool) list"

text \<open>\<^verbatim>\<open>startTime.toISOString().split("T")[1].slice(0, 5)\<close>.\<close>

definition hhmm :: "int \<Rightarrow> string" where
  "hhmm t = take 5 (drop 1 (dropWhile (\<lambda>c. c \<noteq> CHR ''T'') (toISOString t)))"

text \<open>Lines 510 and 511: \<^verbatim>\<open>activity.description || `Work on branch: ${activity.branch}`\<close>.\<close>

definition worklogDescription :: "activity \<Rightarrow> string" where
  "worklogDescription activity =
     (case act_description activity of
        None \<Rightarrow> ''Work on branch: '' @ act_branch activity
      | Some d \<Rightarrow> if d \<noteq> [] then d else ''Work on branch: '' @ act_branch activity)"

text \<open>Lines 539 to 546: the request built for an entry.\<close>

definition worklogFor :: "string \<Rightarrow> activity \<Rightarrow> int \<Rightarrow> config \<Rightarrow> issue \<Rightarrow> worklog" where
  "worklogFor date activity durationSeconds config issueId =
     \<lparr>wl_issueId = issueId,
      wl_timeSpentSeconds = durationSeconds,
      wl_startDate = date,
      wl_startTime = hhmm (act_startTime activity),
      wl_description = worklogDescription activity,
      wl_authorAccountId = jiraAccountId config\<rparr>"

text \<open>
  Lines 535 to 561: the submission of an entry whose issue id is \<open>issueId\<close>, with the store
  \<open>c1\<close> as it is at that point. A failure of \<^verbatim>\<open>createTempoWorklog\<close> is caught and counted.
\<close>

definition submitWorklog ::
  "sync_env \<Rightarrow> string \<Rightarrow> sync_acc \<Rightarrow> activity \<Rightarrow> int \<Rightarrow> config \<Rightarrow> issue \<Rightarrow> sync_acc" where
  "submitWorklog env date acc activity durationSeconds c1 issueId =
     (if \<not> strTruthy (jiraAccountId c1)
      then acc\<lparr>sa_store := c1, sa_fail := sa_fail acc + 1\<rparr>
      else
        (case sy_remote env (act_id activity) of
           Inl e \<Rightarrow>
             acc\<lparr>sa_store := c1, sa_fail := sa_fail acc + 1,
                 sa_sent := sa_sent acc @
                   [(act_id activity, worklogFor date activity durationSeconds c1 issueId, False)]\<rparr>
         | Inr u \<Rightarrow>
             acc\<lparr>sa_store := updateActivityLog (act_id activity)
                                (\<lambda>a. a\<lparr>act_synced := True\<rparr>) c1,
                 sa_success := sa_success acc + 1,
                 sa_sent := sa_sent acc @
                   [(act_id activity, worklogFor date activity durationSeconds c1 issueId, True)]\<rparr>))"

text \<open>
  The body of the loop of \<^verbatim>\<open>syncTempo\<close> (lines 485 to 561) for one entry of the snapshot
  \<^verbatim>\<open>dateActivities\<close>. An exception inside \<^verbatim>\<open>try\<close> ends in the \<^verbatim>\<open>catch\<close> block, which
  counts a failure.
\<close>

definition syncOne :: "sync_env \<Rightarrow> string \<Rightarrow> sync_acc \<Rightarrow> activity \<Rightarrow> sync_acc" where
  "syncOne env date acc activity =
     (case act_endTime activity of
        None \<Rightarrow> acc
      | Some endTime \<Rightarrow>
          (let durationSeconds = roundDiv (endTime - act_startTime activity) 1000 in
           if durationSeconds < 60 then acc
           else if \<not> issueTruthy (act_issueId activity) then
             (case promptIssueId (sy_answers env (act_id activity)) of
                Inl e \<Rightarrow> acc\<lparr>sa_fail := sa_fail acc + 1\<rparr>
              | Inr providedIssueId \<Rightarrow>
                  submitWorklog env date acc activity durationSeconds
                    (updateActivityLog (act_id activity)
                       (\<lambda>a. a\<lparr>act_issueId := IssueStr providedIssueId\<rparr>) (sa_store acc))
                    (IssueStr providedIssueId))
           else submitWorklog env date acc activity durationSeconds
                  (sa_store acc) (act_issueId activity)))"

text \<open>Lines 465 to 468: the unsynced entries of the date.\<close>

definition dateActivities :: "config \<Rightarrow> string \<Rightarrow> activity list" where
  "dateActivities c date =
     filter (\<lambda>activity. startsWith (toISOString (act_startTime activity)) date
                        \<and> \<not> act_synced activity)
       (activityLog c)"

definition syncLoop :: "sync_env \<Rightarrow> string \<Rightarrow> config \<Rightarrow> activity list \<Rightarrow> sync_acc" where
  "syncLoop env date c activities =
     foldl (syncOne env date)
       \<lparr>sa_store = c, sa_success = 0, sa_fail = 0, sa_sent = []\<rparr> activities"

datatype sync_outcome = SyncedViaDaemon | NeedsSetup | NothingToSync | SyncComplete nat nat

text \<open>Lines 454 to 568: the sync in the process itself.\<close>

definition syncTempo_local ::
  "config \<Rightarrow> sync_env \<Rightarrow> string \<Rightarrow> sync_outcome \<times> config \<times> (nat \<times> worklog \<times> bool) list" where
  "syncTempo_local c env date =
     (if \<not> strTruthy (apiKey c) \<or> \<not> strTruthy (jiraAccountId c) then (NeedsSetup, c, [])
      else if length (dateActivities c date) = 0 then (NothingToSync, c, [])
      else
        (let acc = syncLoop env date c (dateActivities c date)
         in (SyncComplete (sa_success acc) (sa_fail acc), sa_store acc, sa_sent acc)))"

definition syncTempo ::
  "config \<Rightarrow> sync_env \<Rightarrow> string \<Rightarrow> sync_outcome \<times> config \<times> (nat \<times> worklog \<times> bool) list" where
  "syncTempo c env date =
     (if sy_probe env = Inr True then
        (case sy_syncVia env of
           Inr u \<Rightarrow> (SyncedViaDaemon, c, [])
         | Inl e \<Rightarrow> syncTempo_local c env date)
      else syncTempo_local c env date)"

subsection \<open>Notions used in the properties\<close>


text \<open>
  A poll that detects no branch change: git fails, or reports the tracked branch \<open>b\<close>.
\<close>

definition noChange :: "string \<Rightarrow> int \<times> (error + string) \<Rightarrow> bool" where
  "noChange b p = (case snd p of Inl e \<Rightarrow> True | Inr currentBranch \<Rightarrow> currentBranch = b)"

text \<open>
  An entry that the loop of \<^verbatim>\<open>syncTempo\<close> passes over: it has no end time, or it is shorter
  than 59500 ms (so that its duration in rounded seconds is below 60).
\<close>

definition skipped :: "activity \<Rightarrow> bool" where
  "skipped a = (case act_endTime a of None \<Rightarrow> True | Some e \<Rightarrow> e - act_startTime a < 59500)"

text \<open>
  An entry that is not passed over, has no issue id, and whose prompt is closed before a
  valid answer.
\<close>

definition promptClosed :: "sync_env \<Rightarrow> activity \<Rightarrow> bool" where
  "promptClosed env a =
     (\<not> skipped a \<and> \<not> issueTruthy (act_issueId a)
      \<and> promptIssueId (sy_answers env (act_id a)) = Inl PromptClosed)"

text \<open>
  An entry for which the loop reaches \<^verbatim>\<open>createTempoWorklog\<close>.
\<close>

definition submitted :: "sync_env \<Rightarrow> activity \<Rightarrow> bool" where
  "submitted env a = (\<not> skipped a \<and> \<not> promptClosed env a)"

text \<open>
  The outcome of \<^verbatim>\<open>createTempoWorklog\<close> for an entry.
\<close>

definition remoteOk :: "sync_env \<Rightarrow> activity \<Rightarrow> bool" where
  "remoteOk env a = (sy_remote env (act_id a) = Inr ())"

text \<open>
  The issue id an entry is submitted with: its own, or the text typed at the prompt.
\<close>

definition resolvedIssue :: "sync_env \<Rightarrow> activity \<Rightarrow> issue" where
  "resolvedIssue env x =
     (if issueTruthy (act_issueId x) then act_issueId x
      else (case promptIssueId (sy_answers env (act_id x)) of
              Inl e \<Rightarrow> act_issueId x
            | Inr p \<Rightarrow> IssueStr p))"

text \<open>
  What the loop does to the store before it submits an entry: the issue id typed at the
  prompt is written back when the entry had none.
\<close>

definition backfilled :: "sync_env \<Rightarrow> activity \<Rightarrow> config \<Rightarrow> config" where
  "backfilled env x c =
     (if issueTruthy (act_issueId x) then c
      else (case promptIssueId (sy_answers env (act_id x)) of
              Inl e \<Rightarrow> c
            | Inr p \<Rightarrow> updateActivityLog (act_id x) (\<lambda>a. a\<lparr>act_issueId := IssueStr p\<rparr>) c))"

text \<open>
  What handling the entry \<open>x\<close> does to a stored entry \<open>a\<close>; \<open>ok\<close> says whether the submission of
  \<open>x\<close> succeeded.
\<close>

definition touch :: "sync_env \<Rightarrow> activity \<Rightarrow> bool \<Rightarrow> activity \<Rightarrow> activity" where
  "touch env x ok a =
     (if act_id a = act_id x then
        (let a1 = (if issueTruthy (act_issueId x) then a
                   else (case promptIssueId (sy_answers env (act_id x)) of
                           Inl e \<Rightarrow> a
                         | Inr p \<Rightarrow> a\<lparr>act_issueId := IssueStr p\<rparr>))
         in if ok then a1\<lparr>act_synced := True\<rparr> else a1)
      else a)"

text \<open>
  The relation between a stored entry \<open>a\<close> before the loop and the same entry \<open>a'\<close> after it,
  when the loop went through the entries \<open>xs\<close> and made the submissions \<open>tr\<close>: only the issue id
  and the synced flag may differ; nothing differs unless an entry of \<open>xs\<close> with the same
  identifier was handled; the flag is set exactly by a successful submission; the issue id
  changes only by a prompt for an entry that had none.
\<close>

definition evolved ::
  "(nat \<times> worklog \<times> bool) list \<Rightarrow> activity list \<Rightarrow> activity \<Rightarrow> activity \<Rightarrow> bool" where
  "evolved tr xs a a' =
     (a'\<lparr>act_issueId := act_issueId a, act_synced := act_synced a\<rparr> = a
      \<and> (act_id a \<notin> act_id ` {x \<in> set xs. \<not> skipped x} \<longrightarrow> a' = a)
      \<and> (act_synced a' \<longleftrightarrow> act_synced a \<or> (\<exists>req. (act_id a, req, True) \<in> set tr))
      \<and> (act_issueId a' = act_issueId a
          \<or> (\<exists>p. p \<noteq> [] \<and> act_issueId a' = IssueStr p
                \<and> (\<exists>x\<in>set xs. act_id x = act_id a \<and> \<not> skipped x
                       \<and> \<not> issueTruthy (act_issueId x)))))"

text \<open>
  A submission, reduced to the identifier of the entry, the issue id sent and the outcome.
\<close>

definition sentView :: "nat \<times> worklog \<times> bool \<Rightarrow> nat \<times> issue \<times> bool" where
  "sentView s = (fst s, wl_issueId (fst (snd s)), snd (snd s))"

text \<open>
  The submission the loop makes for an entry, in the same reduced form.
\<close>

definition sentFor :: "sync_env \<Rightarrow> activity \<Rightarrow> nat \<times> issue \<times> bool" where
  "sentFor env x = (act_id x, resolvedIssue env x, remoteOk env x)"

text \<open>
  The entry that closes the segment of session \<open>t\<close> at instant \<open>e\<close> in a log, and the session
  that \<^verbatim>\<open>startTracking\<close> writes for branch \<open>br\<close> of repository \<open>g\<close> at instant \<open>now\<close>.
\<close>

definition closedSegment :: "activity list \<Rightarrow> tracking \<Rightarrow> int \<Rightarrow> activity" where
  "closedSegment log t e =
     \<lparr>act_id = freshId log, act_branch = tr_branch t, act_directory = tr_directory t,
      act_startTime = tr_startTime t, act_endTime = Some e, act_issueId = tr_issueId t,
      act_description = tr_description t, act_synced = False\<rparr>"

definition newSession :: "options \<Rightarrow> string \<Rightarrow> string \<Rightarrow> int \<Rightarrow> tracking" where
  "newSession opts g br now =
     \<lparr>tr_branch = br, tr_directory = g, tr_startTime = now,
      tr_issueId = IssueNum (case opt_issueId opts of None \<Rightarrow> 0 | Some n \<Rightarrow> n),
      tr_description = opt_description opts\<rparr>"

subsection \<open>Example values\<close>


definition exStore :: config where
  "exStore = \<lparr>apiKey = Some ''key'', jiraAccountId = Some ''acct'',
     tempoBaseUrl = ''https://api.eu.tempo.io/4'', activeTracking = None, activityLog = []\<rparr>"

definition exWorld :: world where
  "exWorld = \<lparr>store = exStore, activeCheckInterval = False, activePulseInterval = False,
     autoStopTimer = None\<rparr>"

definition exStop :: "int \<Rightarrow> stop_env" where
  "exStop now = \<lparr>st_probe = Inr False, st_gitRoot = Some ''/repo'',
     st_stopVia = Inl DaemonNotRunning, st_now = now\<rparr>"

definition exStart :: "int \<Rightarrow> int \<Rightarrow> start_env" where
  "exStart now armed = \<lparr>se_gitRoot = Some ''/repo'', se_probe = Inr False,
     se_daemonBranch = Inl GitError, se_status = Inl DaemonNotRunning,
     se_startVia = Inl DaemonNotRunning, se_verify = Inl DaemonNotRunning,
     se_shouldContinue = Inr False, se_stop = exStop now, se_branch = Inr ''feature/x'',
     se_now = now, se_pulse = Inr (), se_armedAt = armed\<rparr>"

definition exOptions :: options where
  "exOptions = \<lparr>opt_description = None, opt_issueId = None\<rparr>"

definition exTracking :: "string \<Rightarrow> int \<Rightarrow> tracking" where
  "exTracking br t = \<lparr>tr_branch = br, tr_directory = ''/repo'', tr_startTime = t,
     tr_issueId = IssueNum 0, tr_description = None\<rparr>"

definition exStarted :: "int \<Rightarrow> int \<Rightarrow> world" where
  "exStarted now armed = \<lparr>store = exStore\<lparr>activeTracking := Some (exTracking ''feature/x'' now)\<rparr>,
     activeCheckInterval = True, activePulseInterval = True,
     autoStopTimer = Some (Pending (armed + 28800000))\<rparr>"

definition exEntry :: "nat \<Rightarrow> string \<Rightarrow> int \<Rightarrow> int \<Rightarrow> activity" where
  "exEntry i br s e = \<lparr>act_id = i, act_branch = br, act_directory = ''/repo'',
     act_startTime = s, act_endTime = Some e, act_issueId = IssueNum 0,
     act_description = None, act_synced = False\<rparr>"

definition exRestart :: "int \<Rightarrow> int \<Rightarrow> start_env" where
  "exRestart now armed = (exStart now armed)\<lparr>se_shouldContinue := Inr True\<rparr>"









text \<open>
  A stop that a running daemon takes over, a confirmed restart whose nested stop it takes
  over, and a confirmed restart after which git fails.
\<close>

definition exStopDaemon :: "int \<Rightarrow> stop_env" where
  "exStopDaemon now = (exStop now)\<lparr>st_probe := Inr True, st_stopVia := Inr ()\<rparr>"

definition exRestartDaemon :: "int \<Rightarrow> int \<Rightarrow> start_env" where
  "exRestartDaemon now armed = (exRestart now armed)\<lparr>se_stop := exStopDaemon now\<rparr>"

definition exRestartNoGit :: "int \<Rightarrow> int \<Rightarrow> start_env" where
  "exRestartNoGit now armed = (exRestart now armed)\<lparr>se_branch := Inl GitError\<rparr>"

definition exSession :: session where
  "exSession = \<lparr>s_directory = ''/repo'', s_branch = ''feature/x'', s_startTime = 1000,
     s_issueId = IssueUndefined, s_description = None\<rparr>"

definition exStartDaemon :: start_env where
  "exStartDaemon = (exStart 5000 5001)\<lparr>se_probe := Inr True, se_daemonBranch := Inr ''feature/x'',
     se_status := Inr [exSession]\<rparr>"

definition exShort :: activity where
  "exShort = \<lparr>act_id = 1, act_branch = ''main'', act_directory = ''/repo'',
     act_startTime = 1700000000000, act_endTime = Some 1700000059500,
     act_issueId = IssueNum 42, act_description = None, act_synced = False\<rparr>"

definition exNoIssue :: activity where
  "exNoIssue = \<lparr>act_id = 2, act_branch = ''feature/x'', act_directory = ''/repo'',
     act_startTime = 1700000100000, act_endTime = Some 1700000700000,
     act_issueId = IssueNum 0, act_description = None, act_synced = False\<rparr>"

definition exOpen :: activity where
  "exOpen = \<lparr>act_id = 3, act_branch = ''main'', act_directory = ''/repo'',
     act_startTime = 1700000800000, act_endTime = None,
     act_issueId = IssueNum 42, act_description = Some ''review'', act_synced = False\<rparr>"

definition exLong :: activity where
  "exLong = \<lparr>act_id = 4, act_branch = ''main'', act_directory = ''/repo'',
     act_startTime = 1700000900000, act_endTime = Some 1700001500000,
     act_issueId = IssueNum 42, act_description = Some ''review'', act_synced = False\<rparr>"

definition exBrief :: activity where
  "exBrief = \<lparr>act_id = 5, act_branch = ''main'', act_directory = ''/repo'',
     act_startTime = 1700000000000, act_endTime = Some 1700000059499,
     act_issueId = IssueNum 42, act_description = None, act_synced = False\<rparr>"

definition exStatus :: status_env where
  "exStatus = \<lparr>su_probe = Inr False, su_status = Inl DaemonNotRunning, su_now = 601000,
     su_gitRoot = Some ''/repo'', su_branch = Inr ''feature/x''\<rparr>"

definition exConfig :: "activity list \<Rightarrow> config" where
  "exConfig log = exStore\<lparr>activityLog := log\<rparr>"

definition exSync :: "(nat \<Rightarrow> error + unit) \<Rightarrow> sync_env" where
  "exSync remote = \<lparr>sy_probe = Inr False, sy_syncVia = Inl DaemonNotRunning,
     sy_answers = (\<lambda>i. ['''', ''PROJ-7'']), sy_remote = remote\<rparr>"

definition exWorklog :: "issue \<Rightarrow> int \<Rightarrow> string \<Rightarrow> string \<Rightarrow> worklog" where
  "exWorklog i secs hm d = \<lparr>wl_issueId = i, wl_timeSpentSeconds = secs,
     wl_startDate = ''2023-11-14'', wl_startTime = hm, wl_description = d,
     wl_authorAccountId = Some ''acct''\<rparr>"

section \<open>Properties\<close>

subsection \<open>Auxiliary facts\<close>




lemma chain_last: "chain s es e \<Longrightarrow> es \<noteq> [] \<Longrightarrow> act_endTime (last es) = Some e"
proof (induction es arbitrary: s)
  case Nil
  then show ?case by simp
next
  case (Cons a as)
  then show ?case by (cases as) (auto split: option.splits)
qed




lemma startSession_Started:
  assumes "startSession w opts env gitRoot = (Inr Started, w1)"
  shows "\<exists>t. activeTracking (store w1) = Some t \<and> tr_startTime t = se_now env
     \<and> tr_directory t = gitRoot
     \<and> activityLog (store w1) = activityLog (store w)
     \<and> activeCheckInterval w1 \<and> activePulseInterval w1
     \<and> autoStopTimer w1 = Some (Pending (se_armedAt env + MAX_TRACKING_TIME_MS))"
  using assms
  by (auto simp: startSession_def startPulseSending_def sendPulse_def scheduleAutoStop_def
      startBranchChecks_def stopBranchChecks_def Let_def
      split: sum.splits if_splits option.splits prod.splits)

lemma startPulseSending_state:
  "fst (startPulseSending w remote) = Inr ()
   \<and> fst (snd (startPulseSending w remote)) = w\<lparr>activePulseInterval := True\<rparr>"
  by (simp add: startPulseSending_def sendPulse_def Let_def split: option.splits sum.splits)

lemma startSession_fails:
  "se_branch env = Inl err \<Longrightarrow> startSession w opts env g = (Inl err, w)"
  by (simp add: startSession_def)

lemma startSession_starts:
  assumes "se_branch env = Inr br"
  shows "fst (startSession w opts env g) = Inr Started"
    and "store (snd (startSession w opts env g))
          = (store w)\<lparr>activeTracking := Some (newSession opts g br (se_now env))\<rparr>"
    and "activeCheckInterval (snd (startSession w opts env g))"
    and "activePulseInterval (snd (startSession w opts env g))"
    and "autoStopTimer (snd (startSession w opts env g))
          = Some (Pending (se_armedAt env + MAX_TRACKING_TIME_MS))"
  using assms
  by (simp_all add: startSession_def startPulseSending_state scheduleAutoStop_def
      startBranchChecks_def stopBranchChecks_def newSession_def Let_def
      split: option.splits)

lemma startTracking_Started:
  assumes "startTracking w opts env = (Inr Started, w1)"
  shows "\<exists>t g. activeTracking (store w1) = Some t \<and> tr_startTime t = se_now env
     \<and> se_gitRoot env = Some g \<and> tr_directory t = g
     \<and> activeCheckInterval w1 \<and> activePulseInterval w1
     \<and> autoStopTimer w1 = Some (Pending (se_armedAt env + MAX_TRACKING_TIME_MS))"
proof -
  from assms obtain g where g: "se_gitRoot env = Some g"
    by (auto simp: startTracking_def split: option.splits)
  from assms g have "\<exists>w'. startSession w' opts env g = (Inr Started, w1)"
    by (auto simp: startTracking_def startTracking_local_def startTracking_daemon_def
        split: option.splits if_splits sum.splits)
  then obtain w' where "startSession w' opts env g = (Inr Started, w1)" ..
  from startSession_Started [OF this] g show ?thesis by auto
qed

lemma stopTracking_local_active:
  assumes "activeTracking (store w) = Some t"
  shows "activityLog (store (snd (stopTracking_local w now))) = activityLog (store w) @
           [\<lparr>act_id = freshId (activityLog (store w)), act_branch = tr_branch t,
             act_directory = tr_directory t, act_startTime = tr_startTime t,
             act_endTime = Some now, act_issueId = tr_issueId t,
             act_description = tr_description t, act_synced = False\<rparr>]
       \<and> activeTracking (store (snd (stopTracking_local w now))) = None
       \<and> \<not> activeCheckInterval (snd (stopTracking_local w now))
       \<and> \<not> activePulseInterval (snd (stopTracking_local w now))
       \<and> autoStopTimer (snd (stopTracking_local w now)) = None"
  using assms
  by (simp add: stopTracking_local_def addActivityLog_def Let_def cancelAutoStop_def
      stopPulseSending_def stopBranchChecks_def)

lemmas ex_defs = exStore_def exWorld_def exStop_def exStart_def exOptions_def
  exTracking_def exStarted_def exEntry_def

lemmas track_defs = startTracking_def startTracking_local_def startTracking_daemon_def
  startSession_def startPulseSending_def sendPulse_def scheduleAutoStop_def
  startBranchChecks_def stopBranchChecks_def MAX_TRACKING_TIME_MS_def
  stopTracking_def stopTracking_local_def stopViaDaemon_def cancelAutoStop_def
  stopPulseSending_def addActivityLog_def freshId_def branchPollFires_def
  checkCurrentBranch_def produced_def roundDiv_def

lemma ex_start: "startTracking exWorld exOptions (exStart 1000 1002) = (Inr Started, exStarted 1000 1002)"
  by (simp add: ex_defs track_defs)

lemma startSession_branch:
  assumes "startSession w opts env gitRoot = (Inr Started, w1)"
  shows "\<exists>t. activeTracking (store w1) = Some t \<and> se_branch env = Inr (tr_branch t)
     \<and> tr_issueId t = IssueNum (case opt_issueId opts of None \<Rightarrow> 0 | Some n \<Rightarrow> n)"
  using assms
  by (auto simp: startSession_def startPulseSending_def sendPulse_def scheduleAutoStop_def
      startBranchChecks_def stopBranchChecks_def Let_def
      split: sum.splits if_splits option.splits prod.splits)

lemma startTracking_branch:
  assumes "startTracking w opts env = (Inr Started, w1)"
  shows "\<exists>t. activeTracking (store w1) = Some t \<and> se_branch env = Inr (tr_branch t)
     \<and> tr_issueId t = IssueNum (case opt_issueId opts of None \<Rightarrow> 0 | Some n \<Rightarrow> n)"
proof -
  from assms obtain g where g: "se_gitRoot env = Some g"
    by (auto simp: startTracking_def split: option.splits)
  from assms g have "\<exists>w'. startSession w' opts env g = (Inr Started, w1)"
    by (auto simp: startTracking_def startTracking_local_def startTracking_daemon_def
        split: option.splits if_splits sum.splits)
  then obtain w' where "startSession w' opts env g = (Inr Started, w1)" ..
  from startSession_branch [OF this] show ?thesis .
qed

lemma poll_nochange:
  assumes "activeTracking (store w) = Some t" and "noChange (tr_branch t) (now, git)"
  shows "branchPollFires w now git = w"
  using assms
  by (auto simp: branchPollFires_def checkCurrentBranch_def noChange_def split: sum.splits)

lemma runPolls_nochange:
  assumes "activeTracking (store w) = Some t" and "\<forall>p\<in>set polls. noChange (tr_branch t) p"
  shows "runPolls w polls = w"
  using assms
proof (induction polls)
  case Nil
  then show ?case by simp
next
  case (Cons p polls)
  obtain now git where p: "p = (now, git)" by (cases p)
  with Cons.prems have "branchPollFires w now git = w"
    by (simp add: poll_nochange)
  with Cons p show ?case by simp
qed

lemma poll_timer: "autoStopTimer (branchPollFires w now git) = autoStopTimer w"
  by (simp add: branchPollFires_def checkCurrentBranch_def stopBranchChecks_def Let_def
      split: option.splits sum.splits)

lemma runPolls_timer: "autoStopTimer (runPolls w polls) = autoStopTimer w"
proof (induction polls arbitrary: w)
  case Nil
  then show ?case by simp
next
  case (Cons p polls)
  obtain now git where "p = (now, git)" by (cases p)
  with Cons show ?case by (simp add: poll_timer)
qed

lemma roundDiv_threshold: "roundDiv d 1000 < 60 \<longleftrightarrow> d < 59500"
proof -
  have "((2 * d + 1000) div 2000 < 60) = (d < 59500)" by linarith
  then show ?thesis by (simp add: roundDiv_def)
qed

lemma promptIssueId_Inr: "promptIssueId inputs = Inr p \<Longrightarrow> p \<noteq> []"
  by (auto simp: promptIssueId_def split: option.splits dest: find_Some_iff [THEN iffD1])

lemma promptIssueId_Inl: "promptIssueId inputs = Inl e \<Longrightarrow> e = PromptClosed"
  by (auto simp: promptIssueId_def split: option.splits)

lemma syncOne_skipped: "skipped x \<Longrightarrow> syncOne env date acc x = acc"
  by (auto simp: syncOne_def skipped_def roundDiv_threshold Let_def split: option.splits)

lemma syncOne_promptClosed:
  "promptClosed env x \<Longrightarrow> syncOne env date acc x = acc\<lparr>sa_fail := sa_fail acc + 1\<rparr>"
  by (auto simp: syncOne_def promptClosed_def skipped_def roundDiv_threshold Let_def
      split: option.splits)

lemma resolvedIssue_truthy:
  "\<not> promptClosed env x \<Longrightarrow> \<not> skipped x \<Longrightarrow> issueTruthy (resolvedIssue env x)"
  by (cases "promptIssueId (sy_answers env (act_id x))")
     (auto simp: resolvedIssue_def promptClosed_def dest: promptIssueId_Inl promptIssueId_Inr)

lemma syncOne_submits:
  assumes "\<not> skipped x" and "\<not> promptClosed env x"
  shows "syncOne env date acc x
           = submitWorklog env date acc x (roundDiv (the (act_endTime x) - act_startTime x) 1000)
               (backfilled env x (sa_store acc)) (resolvedIssue env x)"
proof -
  from assms(1) obtain e where e: "act_endTime x = Some e"
    "\<not> roundDiv (e - act_startTime x) 1000 < 60"
    by (auto simp: skipped_def roundDiv_threshold split: option.splits)
  show ?thesis
  proof (cases "issueTruthy (act_issueId x)")
    case True
    with e show ?thesis
      by (simp add: syncOne_def backfilled_def resolvedIssue_def)
  next
    case False
    with assms obtain p where p: "promptIssueId (sy_answers env (act_id x)) = Inr p"
      by (cases "promptIssueId (sy_answers env (act_id x))")
         (auto simp: promptClosed_def dest: promptIssueId_Inl)
    with e False show ?thesis
      by (simp add: syncOne_def backfilled_def resolvedIssue_def)
  qed
qed

lemma backfilled_config:
  "apiKey (backfilled env x c) = apiKey c \<and> jiraAccountId (backfilled env x c) = jiraAccountId c
   \<and> tempoBaseUrl (backfilled env x c) = tempoBaseUrl c
   \<and> activeTracking (backfilled env x c) = activeTracking c"
  by (simp add: backfilled_def updateActivityLog_def split: sum.splits)

lemma syncOne_cases:
  assumes acct: "strTruthy (jiraAccountId (sa_store acc))"
  obtains
    (skip) "skipped x" "syncOne env date acc x = acc"
  | (closed) "\<not> skipped x" "promptClosed env x"
      "syncOne env date acc x = acc\<lparr>sa_fail := sa_fail acc + 1\<rparr>"
  | (failed) req where "\<not> skipped x" "\<not> promptClosed env x"
      "sy_remote env (act_id x) \<noteq> Inr ()" "wl_issueId req = resolvedIssue env x"
      "syncOne env date acc x =
         acc\<lparr>sa_store := backfilled env x (sa_store acc), sa_fail := sa_fail acc + 1,
             sa_sent := sa_sent acc @ [(act_id x, req, False)]\<rparr>"
  | (ok) req where "\<not> skipped x" "\<not> promptClosed env x"
      "sy_remote env (act_id x) = Inr ()" "wl_issueId req = resolvedIssue env x"
      "syncOne env date acc x =
         acc\<lparr>sa_store := updateActivityLog (act_id x) (\<lambda>a. a\<lparr>act_synced := True\<rparr>)
                            (backfilled env x (sa_store acc)),
             sa_success := sa_success acc + 1,
             sa_sent := sa_sent acc @ [(act_id x, req, True)]\<rparr>"
proof (cases "skipped x")
  case True
  with syncOne_skipped [OF True] skip show ?thesis by blast
next
  case ns: False
  show ?thesis
  proof (cases "promptClosed env x")
    case True
    with ns syncOne_promptClosed [OF True] closed show ?thesis by blast
  next
    case nc: False
    let ?d = "roundDiv (the (act_endTime x) - act_startTime x) 1000"
    let ?c1 = "backfilled env x (sa_store acc)"
    let ?req = "worklogFor date x ?d ?c1 (resolvedIssue env x)"
    have acct1: "strTruthy (jiraAccountId ?c1)"
      using acct by (simp add: backfilled_config)
    have iss: "wl_issueId ?req = resolvedIssue env x" by (simp add: worklogFor_def)
    note eq = syncOne_submits [OF ns nc, of date acc]
    show ?thesis
    proof (cases "sy_remote env (act_id x)")
      case (Inl e)
      then have "syncOne env date acc x =
         acc\<lparr>sa_store := ?c1, sa_fail := sa_fail acc + 1,
             sa_sent := sa_sent acc @ [(act_id x, ?req, False)]\<rparr>"
        using acct1 by (simp add: eq submitWorklog_def)
      moreover from Inl have "sy_remote env (act_id x) \<noteq> Inr ()" by simp
      ultimately show ?thesis using failed [of ?req] ns nc iss by blast
    next
      case (Inr u)
      then have "syncOne env date acc x =
         acc\<lparr>sa_store := updateActivityLog (act_id x) (\<lambda>a. a\<lparr>act_synced := True\<rparr>) ?c1,
             sa_success := sa_success acc + 1,
             sa_sent := sa_sent acc @ [(act_id x, ?req, True)]\<rparr>"
        using acct1 by (simp add: eq submitWorklog_def)
      moreover from Inr have "sy_remote env (act_id x) = Inr ()" by simp
      ultimately show ?thesis using ok [of ?req] ns nc iss by blast
    qed
  qed
qed

lemma skipped_not_closed: "skipped x \<Longrightarrow> \<not> promptClosed env x"
  by (simp add: promptClosed_def)

lemma syncLoop_snoc:
  "syncLoop env date c (xs @ [x]) = syncOne env date (syncLoop env date c xs) x"
  by (simp add: syncLoop_def)

lemma syncLoop_Nil:
  "syncLoop env date c [] = \<lparr>sa_store = c, sa_success = 0, sa_fail = 0, sa_sent = []\<rparr>"
  by (simp add: syncLoop_def)

lemma updateActivityLog_config:
  "apiKey (updateActivityLog i f c) = apiKey c
   \<and> jiraAccountId (updateActivityLog i f c) = jiraAccountId c
   \<and> tempoBaseUrl (updateActivityLog i f c) = tempoBaseUrl c
   \<and> activeTracking (updateActivityLog i f c) = activeTracking c"
  by (simp add: updateActivityLog_def)

lemma syncLoop_config:
  assumes "strTruthy (jiraAccountId c)"
  shows "apiKey (sa_store (syncLoop env date c xs)) = apiKey c
     \<and> jiraAccountId (sa_store (syncLoop env date c xs)) = jiraAccountId c
     \<and> tempoBaseUrl (sa_store (syncLoop env date c xs)) = tempoBaseUrl c
     \<and> activeTracking (sa_store (syncLoop env date c xs)) = activeTracking c"
proof (induction xs rule: rev_induct)
  case Nil
  show ?case by (simp add: syncLoop_Nil)
next
  case (snoc x xs)
  let ?acc = "syncLoop env date c xs"
  from snoc assms have acct: "strTruthy (jiraAccountId (sa_store ?acc))" by simp
  show ?case
    by (rule syncOne_cases [OF acct, of x env date])
       (simp_all add: syncLoop_snoc snoc backfilled_config updateActivityLog_config)
qed

lemma syncLoop_sent:
  assumes "strTruthy (jiraAccountId c)"
  shows "map sentView (sa_sent (syncLoop env date c xs))
         = map (sentFor env) (filter (submitted env) xs)"
proof (induction xs rule: rev_induct)
  case Nil
  show ?case by (simp add: syncLoop_Nil)
next
  case (snoc x xs)
  let ?acc = "syncLoop env date c xs"
  from syncLoop_config [OF assms, of env date xs] assms
  have acct: "strTruthy (jiraAccountId (sa_store ?acc))" by simp
  from snoc show ?case
    by (cases rule: syncOne_cases [OF acct, of x env date])
       (simp_all add: syncLoop_snoc submitted_def sentView_def sentFor_def remoteOk_def)
qed

lemma syncLoop_counts:
  assumes "strTruthy (jiraAccountId c)"
  shows "sa_success (syncLoop env date c xs)
           = length (filter (\<lambda>x. submitted env x \<and> remoteOk env x) xs)
     \<and> sa_fail (syncLoop env date c xs)
           = length (filter (\<lambda>x. submitted env x \<and> \<not> remoteOk env x) xs)
             + length (filter (promptClosed env) xs)"
proof (induction xs rule: rev_induct)
  case Nil
  show ?case by (simp add: syncLoop_Nil)
next
  case (snoc x xs)
  let ?acc = "syncLoop env date c xs"
  from syncLoop_config [OF assms, of env date xs] assms
  have acct: "strTruthy (jiraAccountId (sa_store ?acc))" by simp
  from snoc show ?case
    by (cases rule: syncOne_cases [OF acct, of x env date])
       (simp_all add: syncLoop_snoc submitted_def remoteOk_def skipped_not_closed)
qed

lemma touch_truthy:
  "issueTruthy (act_issueId x) \<Longrightarrow> touch env x False = (\<lambda>a. a)"
  by (rule ext) (simp add: touch_def)

lemma touch_truthy_ok:
  "issueTruthy (act_issueId x) \<Longrightarrow>
     touch env x True = (\<lambda>a. if act_id a = act_id x then a\<lparr>act_synced := True\<rparr> else a)"
  by (rule ext) (simp add: touch_def)

lemma touch_answered:
  "\<not> issueTruthy (act_issueId x) \<Longrightarrow> promptIssueId (sy_answers env (act_id x)) = Inr p \<Longrightarrow>
     touch env x False = (\<lambda>a. if act_id a = act_id x then a\<lparr>act_issueId := IssueStr p\<rparr> else a)"
  by (rule ext) (simp add: touch_def)

lemma touch_answered_ok:
  "\<not> issueTruthy (act_issueId x) \<Longrightarrow> promptIssueId (sy_answers env (act_id x)) = Inr p \<Longrightarrow>
     touch env x True = (\<lambda>a. if act_id a = act_id x
                              then a\<lparr>act_issueId := IssueStr p, act_synced := True\<rparr> else a)"
  by (rule ext) (simp add: touch_def)

lemma backfilled_log:
  assumes "\<not> promptClosed env x" and "\<not> skipped x"
  shows "activityLog (backfilled env x c) = map (touch env x False) (activityLog c)"
proof (cases "issueTruthy (act_issueId x)")
  case True
  then show ?thesis by (simp add: backfilled_def touch_truthy)
next
  case False
  with assms obtain p where p: "promptIssueId (sy_answers env (act_id x)) = Inr p"
    by (cases "promptIssueId (sy_answers env (act_id x))")
       (auto simp: promptClosed_def dest: promptIssueId_Inl)
  with False show ?thesis
    by (simp add: backfilled_def touch_answered [OF False p] updateActivityLog_def)
qed

lemma marked_log:
  assumes "\<not> promptClosed env x" and "\<not> skipped x"
  shows "activityLog (updateActivityLog (act_id x) (\<lambda>a. a\<lparr>act_synced := True\<rparr>)
                        (backfilled env x c))
       = map (touch env x True) (activityLog c)"
proof (cases "issueTruthy (act_issueId x)")
  case True
  then show ?thesis by (simp add: backfilled_def touch_truthy_ok updateActivityLog_def)
next
  case False
  with assms obtain p where p: "promptIssueId (sy_answers env (act_id x)) = Inr p"
    by (cases "promptIssueId (sy_answers env (act_id x))")
       (auto simp: promptClosed_def dest: promptIssueId_Inl)
  with False show ?thesis
    by (simp add: backfilled_def touch_answered_ok [OF False p] updateActivityLog_def
        comp_def cong: if_cong)
qed

lemma evolved_refl: "evolved [] [] a a"
  by (simp add: evolved_def)

lemma evolved_more:
  assumes "evolved tr xs a b"
  shows "evolved tr (xs @ [x]) a b"
proof -
  from assms have shape: "b\<lparr>act_issueId := act_issueId a, act_synced := act_synced a\<rparr> = a"
    and same: "act_id a \<notin> act_id ` {y \<in> set xs. \<not> skipped y} \<longrightarrow> b = a"
    and synced: "act_synced b \<longleftrightarrow> act_synced a \<or> (\<exists>req. (act_id a, req, True) \<in> set tr)"
    and issue: "act_issueId b = act_issueId a
          \<or> (\<exists>p. p \<noteq> [] \<and> act_issueId b = IssueStr p
                \<and> (\<exists>y\<in>set xs. act_id y = act_id a \<and> \<not> skipped y
                       \<and> \<not> issueTruthy (act_issueId y)))"
    unfolding evolved_def by blast+
  have same': "act_id a \<notin> act_id ` {y \<in> set (xs @ [x]). \<not> skipped y} \<longrightarrow> b = a"
  proof
    assume "act_id a \<notin> act_id ` {y \<in> set (xs @ [x]). \<not> skipped y}"
    then have "act_id a \<notin> act_id ` {y \<in> set xs. \<not> skipped y}" by auto
    with same show "b = a" by blast
  qed
  have issue': "act_issueId b = act_issueId a
          \<or> (\<exists>p. p \<noteq> [] \<and> act_issueId b = IssueStr p
                \<and> (\<exists>y\<in>set (xs @ [x]). act_id y = act_id a \<and> \<not> skipped y
                       \<and> \<not> issueTruthy (act_issueId y)))"
    using issue by auto
  from shape same' synced issue' show ?thesis unfolding evolved_def by (intro conjI)
qed

lemma evolved_touch:
  assumes "evolved tr xs a b" and "\<not> skipped x" and "\<not> promptClosed env x"
  shows "evolved (tr @ [(act_id x, req, ok)]) (xs @ [x]) a (touch env x ok b)"
proof -
  from assms(1) have shape: "b\<lparr>act_issueId := act_issueId a, act_synced := act_synced a\<rparr> = a"
    and same: "act_id a \<notin> act_id ` {y \<in> set xs. \<not> skipped y} \<longrightarrow> b = a"
    and synced: "act_synced b \<longleftrightarrow> act_synced a \<or> (\<exists>r. (act_id a, r, True) \<in> set tr)"
    and issue: "act_issueId b = act_issueId a
          \<or> (\<exists>p. p \<noteq> [] \<and> act_issueId b = IssueStr p
                \<and> (\<exists>y\<in>set xs. act_id y = act_id a \<and> \<not> skipped y
                       \<and> \<not> issueTruthy (act_issueId y)))"
    unfolding evolved_def by blast+
  have idb: "act_id b = act_id a"
  proof -
    have "act_id (b\<lparr>act_issueId := act_issueId a, act_synced := act_synced a\<rparr>) = act_id b"
      by simp
    with shape show ?thesis by simp
  qed
  have t: "(touch env x ok b)\<lparr>act_issueId := act_issueId a, act_synced := act_synced a\<rparr>
      = b\<lparr>act_issueId := act_issueId a, act_synced := act_synced a\<rparr>"
    by (simp add: touch_def Let_def split: sum.splits)
  have c1: "(touch env x ok b)\<lparr>act_issueId := act_issueId a, act_synced := act_synced a\<rparr> = a"
    using t shape by simp
  have c2: "act_id a \<notin> act_id ` {y \<in> set (xs @ [x]). \<not> skipped y} \<longrightarrow> touch env x ok b = a"
  proof
    assume n: "act_id a \<notin> act_id ` {y \<in> set (xs @ [x]). \<not> skipped y}"
    with assms(2) have ne: "act_id a \<noteq> act_id x" by auto
    from n have "act_id a \<notin> act_id ` {y \<in> set xs. \<not> skipped y}" by auto
    with same have "b = a" by blast
    with ne show "touch env x ok b = a" by (simp add: touch_def)
  qed
  have ts: "act_synced (touch env x ok b) \<longleftrightarrow> act_synced b \<or> (act_id b = act_id x \<and> ok)"
    by (simp add: touch_def Let_def split: sum.splits)
  have c3: "act_synced (touch env x ok b) \<longleftrightarrow>
      act_synced a \<or> (\<exists>r. (act_id a, r, True) \<in> set (tr @ [(act_id x, req, ok)]))"
    using ts synced idb by auto
  have c4: "act_issueId (touch env x ok b) = act_issueId a
      \<or> (\<exists>p. p \<noteq> [] \<and> act_issueId (touch env x ok b) = IssueStr p
            \<and> (\<exists>y\<in>set (xs @ [x]). act_id y = act_id a \<and> \<not> skipped y
                   \<and> \<not> issueTruthy (act_issueId y)))"
  proof (cases "act_issueId (touch env x ok b) = act_issueId b")
    case True
    with issue show ?thesis by auto
  next
    case False
    then have "act_id b = act_id x \<and> \<not> issueTruthy (act_issueId x)
        \<and> (\<exists>p. promptIssueId (sy_answers env (act_id x)) = Inr p
               \<and> act_issueId (touch env x ok b) = IssueStr p)"
      by (auto simp: touch_def Let_def split: sum.splits if_splits)
    then obtain p where p: "act_id b = act_id x" "\<not> issueTruthy (act_issueId x)"
        "promptIssueId (sy_answers env (act_id x)) = Inr p"
        "act_issueId (touch env x ok b) = IssueStr p" by blast
    from promptIssueId_Inr [OF p(3)] have "p \<noteq> []" .
    with p idb assms(2) show ?thesis by auto
  qed
  from c1 c2 c3 c4 show ?thesis unfolding evolved_def by (intro conjI)
qed

lemma syncLoop_store:
  assumes "strTruthy (jiraAccountId c)"
  shows "list_all2 (evolved (sa_sent (syncLoop env date c xs)) xs)
           (activityLog c) (activityLog (sa_store (syncLoop env date c xs)))"
proof (induction xs rule: rev_induct)
  case Nil
  show ?case by (simp add: syncLoop_Nil list_all2_same evolved_refl)
next
  case (snoc x xs)
  let ?acc = "syncLoop env date c xs"
  from syncLoop_config [OF assms, of env date xs] assms
  have acct: "strTruthy (jiraAccountId (sa_store ?acc))" by simp
  show ?case
  proof (rule syncOne_cases [OF acct, of x env date], goal_cases)
    case 1
    from snoc have "list_all2 (evolved (sa_sent ?acc) (xs @ [x]))
        (activityLog c) (activityLog (sa_store ?acc))"
      by (rule list_all2_mono) (rule evolved_more)
    with 1 show ?case by (simp add: syncLoop_snoc)
  next
    case 2
    from snoc have "list_all2 (evolved (sa_sent ?acc) (xs @ [x]))
        (activityLog c) (activityLog (sa_store ?acc))"
      by (rule list_all2_mono) (rule evolved_more)
    with 2 show ?case by (simp add: syncLoop_snoc)
  next
    case failed: (3 req)
    from snoc have "list_all2 (\<lambda>a b. evolved (sa_sent ?acc @ [(act_id x, req, False)]) (xs @ [x])
        a (touch env x False b)) (activityLog c) (activityLog (sa_store ?acc))"
      by (rule list_all2_mono) (rule evolved_touch [OF _ failed(1,2)])
    with failed show ?case
      by (simp add: syncLoop_snoc backfilled_log list_all2_map2)
  next
    case ok: (4 req)
    from snoc have "list_all2 (\<lambda>a b. evolved (sa_sent ?acc @ [(act_id x, req, True)]) (xs @ [x])
        a (touch env x True b)) (activityLog c) (activityLog (sa_store ?acc))"
      by (rule list_all2_mono) (rule evolved_touch [OF _ ok(1,2)])
    with ok show ?case
      by (simp add: syncLoop_snoc marked_log list_all2_map2)
  qed
qed

lemma evolved_same: "evolved [] xs a a"
  by (simp add: evolved_def)

lemma syncTempo_local_cases:
  assumes "syncTempo_local c env date = (out, c', tr)"
  obtains
    (idle) "c' = c" "tr = []" "out = NeedsSetup \<or> out = NothingToSync"
  | (ran) "strTruthy (jiraAccountId c)" "strTruthy (apiKey c)"
      "c' = sa_store (syncLoop env date c (dateActivities c date))"
      "tr = sa_sent (syncLoop env date c (dateActivities c date))"
      "out = SyncComplete (sa_success (syncLoop env date c (dateActivities c date)))
                          (sa_fail (syncLoop env date c (dateActivities c date)))"
  using assms
  by (auto simp: syncTempo_local_def Let_def split: if_splits)

lemma syncTempo_local_store:
  assumes "syncTempo_local c env date = (out, c', tr)"
  shows "list_all2 (evolved tr (dateActivities c date)) (activityLog c) (activityLog c')"
  using assms
proof (cases rule: syncTempo_local_cases)
  case idle
  then show ?thesis by (simp add: list_all2_same evolved_same)
next
  case ran
  with syncLoop_store [OF ran(1), of env date "dateActivities c date"] show ?thesis by simp
qed

lemma syncTempo_local_sent:
  assumes "syncTempo_local c env date = (out, c', tr)"
  shows "\<exists>ys. set ys \<subseteq> set (dateActivities c date)
            \<and> map sentView tr = map (sentFor env) (filter (submitted env) ys)
            \<and> (tr = [] \<or> ys = dateActivities c date)"
  using assms
proof (cases rule: syncTempo_local_cases)
  case idle
  then show ?thesis by (intro exI [of _ "[]"]) simp
next
  case ran
  with syncLoop_sent [OF ran(1), of env date "dateActivities c date"] show ?thesis
    by (intro exI [of _ "dateActivities c date"]) simp
qed

lemma sent_sets:
  assumes "map sentView tr = map (sentFor env) (filter (submitted env) ys)"
  shows "sentView ` set tr = sentFor env ` {x \<in> set ys. submitted env x}"
proof -
  have "set (map sentView tr) = set (map (sentFor env) (filter (submitted env) ys))"
    by (simp only: assms)
  then show ?thesis by simp
qed

lemma sent_member:
  assumes "map sentView tr = map (sentFor env) (filter (submitted env) ys)"
      and "(i, req, ok) \<in> set tr"
  shows "\<exists>x\<in>set ys. submitted env x \<and> act_id x = i \<and> wl_issueId req = resolvedIssue env x
            \<and> ok = remoteOk env x"
proof -
  from assms(2) have "sentView (i, req, ok) \<in> sentView ` set tr" by (rule imageI)
  with sent_sets [OF assms(1)]
  have "(i, wl_issueId req, ok) \<in> sentFor env ` {x \<in> set ys. submitted env x}"
    by (simp add: sentView_def)
  then show ?thesis by (auto simp: sentFor_def)
qed

lemma member_sent:
  assumes "map sentView tr = map (sentFor env) (filter (submitted env) ys)"
      and "x \<in> set ys" and "submitted env x"
  shows "\<exists>req. (act_id x, req, remoteOk env x) \<in> set tr \<and> wl_issueId req = resolvedIssue env x"
proof -
  from assms(2,3) have "sentFor env x \<in> sentFor env ` {x \<in> set ys. submitted env x}"
    by blast
  with sent_sets [OF assms(1)] have "sentFor env x \<in> sentView ` set tr" by simp
  then obtain t where t: "t \<in> set tr" "sentView t = sentFor env x" by auto
  obtain i req ok where "t = (i, req, ok)" by (cases t)
  with t show ?thesis by (auto simp: sentView_def sentFor_def)
qed

lemma iso1: "toISOString 1700000000000 = ''2023-11-14T22:13:20.000Z''" by code_simp

lemma iso2: "toISOString 1700000100000 = ''2023-11-14T22:15:00.000Z''" by code_simp

lemma iso3: "toISOString 1700000800000 = ''2023-11-14T22:26:40.000Z''" by code_simp

lemma iso4: "toISOString 1700000900000 = ''2023-11-14T22:28:20.000Z''" by code_simp

lemmas sync_defs = syncTempo_local_def dateActivities_def syncLoop_def syncOne_def
  submitWorklog_def worklogFor_def worklogDescription_def hhmm_def startsWith_def
  promptIssueId_def updateActivityLog_def roundDiv_def Let_def

lemmas exs_defs = exBrief_def exShort_def exNoIssue_def exOpen_def exLong_def exConfig_def exSync_def
  exWorklog_def exStore_def

lemma dateActivities_member:
  "x \<in> set (dateActivities c date) \<Longrightarrow> x \<in> set (activityLog c) \<and> \<not> act_synced x"
  by (simp add: dateActivities_def)

lemma same_id_same_entry:
  assumes "distinct (map act_id l)" and "x \<in> set l" and "y \<in> set l" and "act_id x = act_id y"
  shows "x = y"
proof -
  from assms(1) have "inj_on act_id (set l)" by (simp add: distinct_map)
  with assms(2-4) show ?thesis by (auto dest: inj_onD)
qed

lemma evolved_nth:
  "list_all2 (evolved tr xs) l l' \<Longrightarrow> k < length l \<Longrightarrow> evolved tr xs (l ! k) (l' ! k)"
  by (rule list_all2_nthD)

lemma evolved_id: "evolved tr xs a b \<Longrightarrow> act_id b = act_id a"
proof -
  assume "evolved tr xs a b"
  then have shape: "b\<lparr>act_issueId := act_issueId a, act_synced := act_synced a\<rparr> = a"
    unfolding evolved_def by blast
  have "act_id (b\<lparr>act_issueId := act_issueId a, act_synced := act_synced a\<rparr>) = act_id b"
    by simp
  with shape show ?thesis by simp
qed

lemma count_split:
  "length (filter (\<lambda>x. submitted env x \<and> remoteOk env x) xs)
   + (length (filter (\<lambda>x. submitted env x \<and> \<not> remoteOk env x) xs)
      + length (filter (promptClosed env) xs))
   = length (filter (\<lambda>x. \<not> skipped x) xs)"
  by (induction xs) (auto simp: submitted_def promptClosed_def)

lemma skipped_iff:
  "skipped x \<longleftrightarrow>
     (act_endTime x = None \<or> (\<exists>e. act_endTime x = Some e \<and> e - act_startTime x < 59500))"
  by (simp add: skipped_def split: option.splits)

lemma syncTempo_cases:
  "syncTempo c env date = (SyncedViaDaemon, c, [])
   \<or> syncTempo c env date = syncTempo_local c env date"
  by (simp add: syncTempo_def split: sum.splits)

lemma unsubmitted_untouched:
  assumes run: "syncTempo_local c env date = (out, c', tr)"
      and ids: "distinct (map act_id (activityLog c))"
      and mem: "x \<in> set (activityLog c)"
      and nosub: "x \<in> set (dateActivities c date) \<longrightarrow> skipped x"
  shows "act_id x \<notin> fst ` set tr"
    and "\<forall>k<length (activityLog c). activityLog c ! k = x \<longrightarrow> activityLog c' ! k = x"
proof -
  have none: "act_id x \<notin> act_id ` {y \<in> set (dateActivities c date). \<not> skipped y}"
  proof
    assume "act_id x \<in> act_id ` {y \<in> set (dateActivities c date). \<not> skipped y}"
    then obtain y where y: "y \<in> set (dateActivities c date)" "\<not> skipped y" "act_id x = act_id y"
      by auto
    from y(1) have "y \<in> set (activityLog c)" by (simp add: dateActivities_member)
    from same_id_same_entry [OF ids mem this y(3)] y nosub show False by simp
  qed
  show "act_id x \<notin> fst ` set tr"
  proof
    assume "act_id x \<in> fst ` set tr"
    then obtain req ok where t: "(act_id x, req, ok) \<in> set tr" by force
    from syncTempo_local_sent [OF run] obtain ys where
      ys: "set ys \<subseteq> set (dateActivities c date)"
          "map sentView tr = map (sentFor env) (filter (submitted env) ys)" by blast
    from sent_member [OF ys(2) t] obtain y where
      y: "y \<in> set ys" "submitted env y" "act_id y = act_id x" by blast
    from y(2) have "\<not> skipped y" by (simp add: submitted_def)
    with y(1,3) ys(1) have "y \<in> {y \<in> set (dateActivities c date). \<not> skipped y}" by blast
    then have "act_id y \<in> act_id ` {y \<in> set (dateActivities c date). \<not> skipped y}"
      by (rule imageI)
    with y(3) have "act_id x \<in> act_id ` {y \<in> set (dateActivities c date). \<not> skipped y}"
      by simp
    with none show False by simp
  qed
  show "\<forall>k<length (activityLog c). activityLog c ! k = x \<longrightarrow> activityLog c' ! k = x"
  proof (intro allI impI)
    fix k assume k: "k < length (activityLog c)" "activityLog c ! k = x"
    from evolved_nth [OF syncTempo_local_store [OF run] k(1)] k(2)
    have "evolved tr (dateActivities c date) x (activityLog c' ! k)" by simp
    with none show "activityLog c' ! k = x" unfolding evolved_def by blast
  qed
qed

lemma ex_sync_skip:
  "syncTempo_local (exConfig [exBrief, exOpen, exLong]) (exSync (\<lambda>i. Inr ())) ''2023-11-14''
   = (SyncComplete 1 0, exConfig [exBrief, exOpen, exLong\<lparr>act_synced := True\<rparr>],
      [(4, exWorklog (IssueNum 42) 600 ''22:28'' ''review'', True)])"
  by (simp add: sync_defs exs_defs iso1 iso2 iso3 iso4)

lemma ex_sync_short:
  "syncTempo_local (exConfig [exShort]) (exSync (\<lambda>i. Inr ())) ''2023-11-14''
   = (SyncComplete 1 0, exConfig [exShort\<lparr>act_synced := True\<rparr>],
      [(1, exWorklog (IssueNum 42) 60 ''22:13'' ''Work on branch: main'', True)])"
  by (simp add: sync_defs exs_defs iso1 iso2 iso3 iso4)

lemma ex_sync_first:
  "syncTempo_local (exConfig [exShort, exNoIssue, exOpen, exLong])
     (exSync (\<lambda>i. if i = 2 then Inl RemoteError else Inr ())) ''2023-11-14''
   = (SyncComplete 2 1,
      exConfig [exShort\<lparr>act_synced := True\<rparr>, exNoIssue\<lparr>act_issueId := IssueStr ''PROJ-7''\<rparr>,
                exOpen, exLong\<lparr>act_synced := True\<rparr>],
      [(1, exWorklog (IssueNum 42) 60 ''22:13'' ''Work on branch: main'', True),
       (2, exWorklog (IssueStr ''PROJ-7'') 600 ''22:15'' ''Work on branch: feature/x'', False),
       (4, exWorklog (IssueNum 42) 600 ''22:28'' ''review'', True)])"
  by (simp add: sync_defs exs_defs iso1 iso2 iso3 iso4)

lemma ex_sync_second:
  "syncTempo_local
     (exConfig [exShort\<lparr>act_synced := True\<rparr>, exNoIssue\<lparr>act_issueId := IssueStr ''PROJ-7''\<rparr>,
                exOpen, exLong\<lparr>act_synced := True\<rparr>])
     (exSync (\<lambda>i. Inr ())) ''2023-11-14''
   = (SyncComplete 1 0,
      exConfig [exShort\<lparr>act_synced := True\<rparr>,
                exNoIssue\<lparr>act_issueId := IssueStr ''PROJ-7'', act_synced := True\<rparr>,
                exOpen, exLong\<lparr>act_synced := True\<rparr>],
      [(2, exWorklog (IssueStr ''PROJ-7'') 600 ''22:15'' ''Work on branch: feature/x'', True)])"
  by (simp add: sync_defs exs_defs iso1 iso2 iso3 iso4)

lemma ex_sync_closed:
  "syncTempo_local (exConfig [exNoIssue])
     ((exSync (\<lambda>i. Inr ()))\<lparr>sy_answers := (\<lambda>i. [])\<rparr>) ''2023-11-14''
   = (SyncComplete 0 1, exConfig [exNoIssue], [])"
  by (simp add: sync_defs exs_defs iso1 iso2 iso3 iso4)

lemma sent_oks:
  assumes "map sentView tr = map (sentFor env) ys"
  shows "map (\<lambda>t. snd (snd t)) tr = map (remoteOk env) ys"
proof -
  from assms have "map (\<lambda>v. snd (snd v)) (map sentView tr)
      = map (\<lambda>v. snd (snd v)) (map (sentFor env) ys)" by (simp only:)
  then show ?thesis by (simp add: sentView_def sentFor_def comp_def)
qed

lemma count_true: "length (filter (\<lambda>t. snd (snd t)) tr) = length (filter (\<lambda>b. b) (map (\<lambda>t. snd (snd t)) tr))"
  by (simp add: filter_map comp_def)

lemma count_false: "length (filter (\<lambda>t. \<not> snd (snd t)) tr) = length (filter (\<lambda>b. \<not> b) (map (\<lambda>t. snd (snd t)) tr))"
  by (simp add: filter_map comp_def)

lemma sent_counts:
  assumes "map sentView tr = map (sentFor env) (filter (submitted env) xs)"
  shows "length (filter (\<lambda>t. snd (snd t)) tr)
           = length (filter (\<lambda>x. submitted env x \<and> remoteOk env x) xs)"
    and "length (filter (\<lambda>t. \<not> snd (snd t)) tr)
           = length (filter (\<lambda>x. submitted env x \<and> \<not> remoteOk env x) xs)"
proof -
  note oks = sent_oks [OF assms]
  show "length (filter (\<lambda>t. snd (snd t)) tr)
           = length (filter (\<lambda>x. submitted env x \<and> remoteOk env x) xs)"
    by (simp only: count_true oks) (simp add: filter_map comp_def conj_commute)
  show "length (filter (\<lambda>t. \<not> snd (snd t)) tr)
           = length (filter (\<lambda>x. submitted env x \<and> \<not> remoteOk env x) xs)"
    by (simp only: count_false oks) (simp add: filter_map comp_def conj_commute)
qed

lemma syncTempo_local_marks:
  assumes run: "syncTempo_local c env date = (out, c', tr)"
  shows "length (activityLog c') = length (activityLog c)"
    and "\<forall>k<length (activityLog c).
           act_id (activityLog c' ! k) = act_id (activityLog c ! k)
         \<and> (act_synced (activityLog c' ! k) \<longleftrightarrow>
              act_synced (activityLog c ! k)
              \<or> (\<exists>req. (act_id (activityLog c ! k), req, True) \<in> set tr))"
proof -
  note st = syncTempo_local_store [OF run]
  from st show "length (activityLog c') = length (activityLog c)"
    by (simp add: list_all2_lengthD)
  show "\<forall>k<length (activityLog c).
           act_id (activityLog c' ! k) = act_id (activityLog c ! k)
         \<and> (act_synced (activityLog c' ! k) \<longleftrightarrow>
              act_synced (activityLog c ! k)
              \<or> (\<exists>req. (act_id (activityLog c ! k), req, True) \<in> set tr))"
  proof (intro allI impI)
    fix k assume k: "k < length (activityLog c)"
    note e = evolved_nth [OF st k]
    from e have "act_synced (activityLog c' ! k) \<longleftrightarrow>
              act_synced (activityLog c ! k)
              \<or> (\<exists>req. (act_id (activityLog c ! k), req, True) \<in> set tr)"
      unfolding evolved_def by blast
    with evolved_id [OF e]
    show "act_id (activityLog c' ! k) = act_id (activityLog c ! k)
         \<and> (act_synced (activityLog c' ! k) \<longleftrightarrow>
              act_synced (activityLog c ! k)
              \<or> (\<exists>req. (act_id (activityLog c ! k), req, True) \<in> set tr))"
      by blast
  qed
qed

lemma syncTempo_local_attempts:
  assumes run: "syncTempo_local c env date = (out, c', tr)"
      and t: "t \<in> set tr"
  shows "\<exists>x\<in>set (dateActivities c date). act_id x = fst t \<and> submitted env x
           \<and> wl_issueId (fst (snd t)) = resolvedIssue env x
           \<and> snd (snd t) = remoteOk env x"
proof -
  obtain i req ok where tt: "t = (i, req, ok)" by (cases t)
  from syncTempo_local_sent [OF run] obtain ys where
    ys: "set ys \<subseteq> set (dateActivities c date)"
        "map sentView tr = map (sentFor env) (filter (submitted env) ys)" by blast
  from sent_member [OF ys(2), of i req ok] t tt obtain x where
    "x \<in> set ys" "submitted env x" "act_id x = i" "wl_issueId req = resolvedIssue env x"
    "ok = remoteOk env x" by blast
  with ys(1) tt show ?thesis by auto
qed

lemma showLocalSession_issue:
  "LIssue i \<in> set (showLocalSession env t) \<Longrightarrow> issueTruthy (tr_issueId t)"
  by (auto simp: showLocalSession_def Let_def split: option.splits sum.splits if_splits)

lemma showDaemonSession_issue:
  "LIssue i \<in> set (showDaemonSession now s) \<Longrightarrow> issueTruthy (s_issueId s)"
  by (auto simp: showDaemonSession_def Let_def split: option.splits if_splits)

lemma startSession_issue_default:
  "startSession w (opts\<lparr>opt_issueId := None\<rparr>) env g
   = startSession w (opts\<lparr>opt_issueId := Some 0\<rparr>) env g"
  by (simp add: startSession_def Let_def split: sum.splits)

text \<open>
  The identifiers of the log are distinct, and stay so: a new entry gets an identifier above
  all others, and the sync never changes an identifier.
\<close>

lemma fold_max_upper: "i \<in> set is \<Longrightarrow> i \<le> fold max is (m::nat)"
proof (induction "is" arbitrary: m)
  case Nil
  then show ?case by simp
next
  case (Cons j js)
  have mono: "m \<le> fold max js m" for m :: nat
  proof (induction js arbitrary: m)
    case Nil
    show ?case by simp
  next
    case (Cons k ks)
    have "m \<le> max k m" by simp
    also have "max k m \<le> fold max ks (max k m)" by (rule Cons.IH)
    finally show ?case by simp
  qed
  from Cons.prems have "i = j \<or> i \<in> set js" by auto
  then show ?case
  proof
    assume "i = j"
    then have "i \<le> max j m" by simp
    also have "max j m \<le> fold max js (max j m)" by (rule mono)
    finally show ?thesis by simp
  next
    assume "i \<in> set js"
    from Cons.IH [OF this, of "max j m"] show ?thesis by simp
  qed
qed

lemma freshId_new: "freshId log \<notin> act_id ` set log"
proof
  assume "freshId log \<in> act_id ` set log"
  then have "freshId log \<in> set (map act_id log)" by simp
  from fold_max_upper [OF this, of 0] show False by (simp add: freshId_def)
qed

lemma addActivityLog_distinct:
  assumes "distinct (map act_id (activityLog c))"
  shows "distinct (map act_id (activityLog (addActivityLog br dir st en iss desc c)))"
  using assms freshId_new [of "activityLog c"] by (simp add: addActivityLog_def)

lemma checkCurrentBranch_distinct:
  assumes "distinct (map act_id (activityLog (store w)))"
  shows "distinct (map act_id (activityLog (store (checkCurrentBranch w now git))))"
  using assms addActivityLog_distinct [OF assms]
  by (simp add: checkCurrentBranch_def stopBranchChecks_def Let_def
      split: option.splits sum.splits)

lemma stopTracking_local_distinct:
  assumes "distinct (map act_id (activityLog (store w)))"
  shows "distinct (map act_id (activityLog (store (snd (stopTracking_local w now)))))"
  using assms addActivityLog_distinct [OF assms]
  by (simp add: stopTracking_local_def cancelAutoStop_def stopPulseSending_def
      stopBranchChecks_def Let_def split: option.splits)

lemma syncTempo_local_ids:
  assumes "syncTempo_local c env date = (out, c', tr)"
  shows "map act_id (activityLog c') = map act_id (activityLog c)"
proof (rule nth_equalityI)
  note st = syncTempo_local_store [OF assms]
  from st show len: "length (map act_id (activityLog c')) = length (map act_id (activityLog c))"
    by (simp add: list_all2_lengthD)
  fix k assume "k < length (map act_id (activityLog c'))"
  with len have k: "k < length (activityLog c)" by simp
  from evolved_id [OF evolved_nth [OF st k]] k len
  show "map act_id (activityLog c') ! k = map act_id (activityLog c) ! k" by simp
qed

text \<open>
  What \<^verbatim>\<open>syncTempo\<close> passes over. An entry with no end time, or whose duration rounded to whole
  seconds (\<^verbatim>\<open>Math.round\<close>) is below 60, that is an entry shorter than 59.5 seconds, is
  skipped by the loop of \<^verbatim>\<open>syncTempo\<close>: the iteration changes nothing, no request carries its
  identifier, its stored record is left as it was, and it is counted neither as succeeded nor
  as failed (the two counters add up to the number of entries that are not skipped).
\<close>

lemma skipped_entries_untouched:
  assumes short: "act_endTime x = None
                  \<or> (\<exists>e. act_endTime x = Some e \<and> e - act_startTime x < 59500)"
      and run: "syncTempo_local c env date = (out, c', tr)"
      and ids: "distinct (map act_id (activityLog c))"
      and mem: "x \<in> set (activityLog c)"
  shows "syncOne env date acc x = acc
       \<and> act_id x \<notin> fst ` set tr
       \<and> (\<forall>k<length (activityLog c). activityLog c ! k = x \<longrightarrow> activityLog c' ! k = x)
       \<and> (\<forall>s f. out = SyncComplete s f \<longrightarrow>
             s + f = length (filter (\<lambda>y. \<not> skipped y) (dateActivities c date)))
       \<and> (skipped x \<longleftrightarrow> (case act_endTime x of
                              None \<Rightarrow> True
                            | Some e \<Rightarrow> roundDiv (e - act_startTime x) 1000 < 60))"
proof -
  from short have sk: "skipped x" by (simp add: skipped_iff)
  have one: "syncOne env date acc x = acc" by (rule syncOne_skipped [OF sk])
  from sk have nosub: "x \<in> set (dateActivities c date) \<longrightarrow> skipped x" by simp
  note u = unsubmitted_untouched [OF run ids mem nosub]
  have cnt: "\<forall>s f. out = SyncComplete s f \<longrightarrow>
             s + f = length (filter (\<lambda>y. \<not> skipped y) (dateActivities c date))"
  proof (intro allI impI)
    fix s f assume out: "out = SyncComplete s f"
    from run show "s + f = length (filter (\<lambda>y. \<not> skipped y) (dateActivities c date))"
    proof (cases rule: syncTempo_local_cases)
      case idle
      with out show ?thesis by simp
    next
      case ran
      from syncLoop_counts [OF ran(1), of env date "dateActivities c date"] ran(5) out
      have "s + f = length (filter (\<lambda>x. submitted env x \<and> remoteOk env x) (dateActivities c date))
        + (length (filter (\<lambda>x. submitted env x \<and> \<not> remoteOk env x) (dateActivities c date))
           + length (filter (promptClosed env) (dateActivities c date)))"
        by simp
      then show ?thesis by (simp only: count_split)
    qed
  qed
  have rd: "skipped x \<longleftrightarrow> (case act_endTime x of
                              None \<Rightarrow> True
                            | Some e \<Rightarrow> roundDiv (e - act_startTime x) 1000 < 60)"
    by (simp add: skipped_def roundDiv_threshold split: option.splits)
  from one u cnt rd show ?thesis by blast
qed

lemma skipped_entries_untouched_example:
  "(act_endTime exBrief = None
      \<or> (\<exists>e. act_endTime exBrief = Some e \<and> e - act_startTime exBrief < 59500))
   \<and> syncTempo_local (exConfig [exBrief, exOpen, exLong]) (exSync (\<lambda>i. Inr ())) ''2023-11-14''
      = (SyncComplete 1 0, exConfig [exBrief, exOpen, exLong\<lparr>act_synced := True\<rparr>],
         [(4, exWorklog (IssueNum 42) 600 ''22:28'' ''review'', True)])
   \<and> act_id exBrief \<notin> fst ` set [(4, exWorklog (IssueNum 42) 600 ''22:28'' ''review'', True)]
   \<and> 1 + 0 = length (filter (\<lambda>y. \<not> skipped y)
                  (dateActivities (exConfig [exBrief, exOpen, exLong]) ''2023-11-14''))"
proof -
  have short: "act_endTime exBrief = None
      \<or> (\<exists>e. act_endTime exBrief = Some e \<and> e - act_startTime exBrief < 59500)"
    by (simp add: exBrief_def)
  have ids: "distinct (map act_id (activityLog (exConfig [exBrief, exOpen, exLong])))"
    by (simp add: exs_defs)
  have mem: "exBrief \<in> set (activityLog (exConfig [exBrief, exOpen, exLong]))"
    by (simp add: exConfig_def)
  from skipped_entries_untouched [OF short ex_sync_skip ids mem]
  have "act_id exBrief \<notin> fst ` set [(4, exWorklog (IssueNum 42) 600 ''22:28'' ''review'', True)]
     \<and> 1 + 0 = length (filter (\<lambda>y. \<not> skipped y)
                  (dateActivities (exConfig [exBrief, exOpen, exLong]) ''2023-11-14''))"
    by blast
  with short ex_sync_skip show ?thesis by blast
qed

subsection \<open>Claims\<close>



text \<open>
  C2 (as the code has it). \<^verbatim>\<open>startTracking\<close> in a repository that already has a session
  raises no conflict error. When the daemon reports a session for the directory, only a
  status request has been sent and the call returns with the process state unchanged; the
  process state is unchanged whenever the daemon path ends the call. When control reaches
  local tracking and the store holds a session \<open>t\<close>, the user is asked:

    \<^item> the answer no (the default) returns with the state unchanged;
    \<^item> a prompt closed without an answer makes the call fail with the error of the prompt,
      the state unchanged;
    \<^item> the answer yes runs \<^verbatim>\<open>stopTracking\<close> and then starts a session. When that stop runs in
      the process, the segment of \<open>t\<close> is appended to the log, ending at the instant of the stop;
      then, if git gives the current branch, the call succeeds with a new session from
      \<open>se_now\<close> and its timers, and if git fails, the call fails with that error and no session
      is left. When the stop is taken over by a daemon, nothing is appended; then, if git
      gives the current branch, the new session overwrites \<open>t\<close>, and if git fails, the call
      fails with the state unchanged.
\<close>

theorem C2_start_on_active_session:
  assumes root: "se_gitRoot env = Some g"
  shows "(se_probe env = Inr True \<and> se_daemonBranch env = Inr b
           \<and> se_status env = Inr sessions
           \<and> find (\<lambda>s. s_directory s = g) sessions = Some s
          \<longrightarrow> startTracking w opts env = (Inr (AlreadyTrackedByDaemon s), w)
              \<and> snd (startTracking_daemon env g) = [ReqStatus])
       \<and> (fst (startTracking_daemon env g) = Some outcome
          \<longrightarrow> startTracking w opts env = (Inr outcome, w))
       \<and> (fst (startTracking_daemon env g) = None \<and> activeTracking (store w) = Some t
           \<and> se_shouldContinue env = Inr False
          \<longrightarrow> startTracking w opts env = (Inr (AlreadyTrackedLocally t), w))
       \<and> (fst (startTracking_daemon env g) = None \<and> activeTracking (store w) = Some t
           \<and> se_shouldContinue env = Inl e
          \<longrightarrow> startTracking w opts env = (Inl e, w))
       \<and> (fst (startTracking_daemon env g) = None \<and> activeTracking (store w) = Some t
           \<and> se_shouldContinue env = Inr True \<and> \<not> stopViaDaemon (se_stop env)
          \<longrightarrow> activityLog (store (snd (startTracking w opts env)))
                = activityLog (store w) @ [closedSegment (activityLog (store w)) t (st_now (se_stop env))]
              \<and> (se_branch env = Inr br \<longrightarrow>
                    fst (startTracking w opts env) = Inr Started
                    \<and> activeTracking (store (snd (startTracking w opts env)))
                        = Some (newSession opts g br (se_now env))
                    \<and> activeCheckInterval (snd (startTracking w opts env))
                    \<and> activePulseInterval (snd (startTracking w opts env))
                    \<and> autoStopTimer (snd (startTracking w opts env))
                        = Some (Pending (se_armedAt env + MAX_TRACKING_TIME_MS)))
              \<and> (se_branch env = Inl err \<longrightarrow>
                    fst (startTracking w opts env) = Inl err
                    \<and> activeTracking (store (snd (startTracking w opts env))) = None
                    \<and> \<not> activeCheckInterval (snd (startTracking w opts env))
                    \<and> \<not> activePulseInterval (snd (startTracking w opts env))
                    \<and> autoStopTimer (snd (startTracking w opts env)) = None))
       \<and> (fst (startTracking_daemon env g) = None \<and> activeTracking (store w) = Some t
           \<and> se_shouldContinue env = Inr True \<and> stopViaDaemon (se_stop env)
          \<longrightarrow> activityLog (store (snd (startTracking w opts env))) = activityLog (store w)
              \<and> (se_branch env = Inr br \<longrightarrow>
                    fst (startTracking w opts env) = Inr Started
                    \<and> activeTracking (store (snd (startTracking w opts env)))
                        = Some (newSession opts g br (se_now env)))
              \<and> (se_branch env = Inl err \<longrightarrow> startTracking w opts env = (Inl err, w)))"
proof -
  have daemon: "se_probe env = Inr True \<and> se_daemonBranch env = Inr b
           \<and> se_status env = Inr sessions
           \<and> find (\<lambda>s. s_directory s = g) sessions = Some s
          \<longrightarrow> startTracking w opts env = (Inr (AlreadyTrackedByDaemon s), w)
              \<and> snd (startTracking_daemon env g) = [ReqStatus]"
    using root by (auto simp: startTracking_def startTracking_daemon_def)
  have ended: "fst (startTracking_daemon env g) = Some outcome
          \<longrightarrow> startTracking w opts env = (Inr outcome, w)"
    using root by (simp add: startTracking_def)
  have loc: "startTracking w opts env = startTracking_local w opts env g"
    if "fst (startTracking_daemon env g) = None"
    using root that by (simp add: startTracking_def)
  have no: "fst (startTracking_daemon env g) = None \<and> activeTracking (store w) = Some t
           \<and> se_shouldContinue env = Inr False
          \<longrightarrow> startTracking w opts env = (Inr (AlreadyTrackedLocally t), w)"
    using loc by (auto simp: startTracking_local_def)
  have closed: "fst (startTracking_daemon env g) = None \<and> activeTracking (store w) = Some t
           \<and> se_shouldContinue env = Inl e
          \<longrightarrow> startTracking w opts env = (Inl e, w)"
    using loc by (auto simp: startTracking_local_def)
  have yes: "startTracking w opts env
        = startSession (snd (stopTracking w (se_stop env))) opts env g"
    if "fst (startTracking_daemon env g) = None" "activeTracking (store w) = Some t"
       "se_shouldContinue env = Inr True"
    using loc that by (simp add: startTracking_local_def)
  have inproc: "activityLog (store (snd (startTracking w opts env)))
                = activityLog (store w) @ [closedSegment (activityLog (store w)) t (st_now (se_stop env))]
              \<and> (se_branch env = Inr br \<longrightarrow>
                    fst (startTracking w opts env) = Inr Started
                    \<and> activeTracking (store (snd (startTracking w opts env)))
                        = Some (newSession opts g br (se_now env))
                    \<and> activeCheckInterval (snd (startTracking w opts env))
                    \<and> activePulseInterval (snd (startTracking w opts env))
                    \<and> autoStopTimer (snd (startTracking w opts env))
                        = Some (Pending (se_armedAt env + MAX_TRACKING_TIME_MS)))
              \<and> (se_branch env = Inl err \<longrightarrow>
                    fst (startTracking w opts env) = Inl err
                    \<and> activeTracking (store (snd (startTracking w opts env))) = None
                    \<and> \<not> activeCheckInterval (snd (startTracking w opts env))
                    \<and> \<not> activePulseInterval (snd (startTracking w opts env))
                    \<and> autoStopTimer (snd (startTracking w opts env)) = None)"
    if h: "fst (startTracking_daemon env g) = None" "activeTracking (store w) = Some t"
       "se_shouldContinue env = Inr True" "\<not> stopViaDaemon (se_stop env)"
  proof -
    let ?w1 = "snd (stopTracking_local w (st_now (se_stop env)))"
    from h(4) have st: "snd (stopTracking w (se_stop env)) = ?w1"
      by (simp add: stopTracking_def)
    note s1 = stopTracking_local_active [OF h(2), of "st_now (se_stop env)"]
    have eq: "startTracking w opts env = startSession ?w1 opts env g"
      using yes [OF h(1,2,3)] st by simp
    have log: "activityLog (store (snd (startSession ?w1 opts env g))) = activityLog (store ?w1)"
      by (cases "se_branch env") (simp_all add: startSession_fails startSession_starts)
    from s1 log have a: "activityLog (store (snd (startTracking w opts env)))
        = activityLog (store w) @ [closedSegment (activityLog (store w)) t (st_now (se_stop env))]"
      by (simp add: eq closedSegment_def)
    have b: "se_branch env = Inr br \<longrightarrow>
                    fst (startTracking w opts env) = Inr Started
                    \<and> activeTracking (store (snd (startTracking w opts env)))
                        = Some (newSession opts g br (se_now env))
                    \<and> activeCheckInterval (snd (startTracking w opts env))
                    \<and> activePulseInterval (snd (startTracking w opts env))
                    \<and> autoStopTimer (snd (startTracking w opts env))
                        = Some (Pending (se_armedAt env + MAX_TRACKING_TIME_MS))"
      by (simp add: eq startSession_starts)
    have c: "se_branch env = Inl err \<longrightarrow>
                    fst (startTracking w opts env) = Inl err
                    \<and> activeTracking (store (snd (startTracking w opts env))) = None
                    \<and> \<not> activeCheckInterval (snd (startTracking w opts env))
                    \<and> \<not> activePulseInterval (snd (startTracking w opts env))
                    \<and> autoStopTimer (snd (startTracking w opts env)) = None"
      using s1 by (simp add: eq startSession_fails)
    from a b c show ?thesis by (intro conjI)
  qed
  have handed: "activityLog (store (snd (startTracking w opts env))) = activityLog (store w)
              \<and> (se_branch env = Inr br \<longrightarrow>
                    fst (startTracking w opts env) = Inr Started
                    \<and> activeTracking (store (snd (startTracking w opts env)))
                        = Some (newSession opts g br (se_now env)))
              \<and> (se_branch env = Inl err \<longrightarrow> startTracking w opts env = (Inl err, w))"
    if h: "fst (startTracking_daemon env g) = None" "activeTracking (store w) = Some t"
       "se_shouldContinue env = Inr True" "stopViaDaemon (se_stop env)"
  proof -
    from h(4) have st: "snd (stopTracking w (se_stop env)) = w"
      by (simp add: stopTracking_def)
    have eq: "startTracking w opts env = startSession w opts env g"
      using yes [OF h(1,2,3)] st by simp
    have log: "activityLog (store (snd (startSession w opts env g))) = activityLog (store w)"
      by (cases "se_branch env") (simp_all add: startSession_fails startSession_starts)
    then show ?thesis by (simp add: eq startSession_fails startSession_starts)
  qed
  from daemon ended no closed inproc handed show ?thesis by blast
qed

theorem C2_start_on_active_session_witness:
  "se_gitRoot (exStart 5000 5001) = Some ''/repo''
   \<and> startTracking (exStarted 1000 1002) exOptions (exStart 5000 5001)
       = (Inr (AlreadyTrackedLocally (exTracking ''feature/x'' 1000)), exStarted 1000 1002)
   \<and> startTracking exWorld exOptions exStartDaemon
       = (Inr (AlreadyTrackedByDaemon exSession), exWorld)
   \<and> startTracking (exStarted 1000 1002) exOptions
        ((exStart 5000 5001)\<lparr>se_shouldContinue := Inl PromptClosed\<rparr>)
       = (Inl PromptClosed, exStarted 1000 1002)
   \<and> startTracking (exStarted 1000 1002) exOptions (exRestart 5000 5001)
       = (Inr Started,
          (exStarted 5000 5001)\<lparr>store := (store (exStarted 5000 5001))
             \<lparr>activityLog := [exEntry 1 ''feature/x'' 1000 5000]\<rparr>\<rparr>)
   \<and> activityLog (store (snd (startTracking (exStarted 1000 1002) exOptions
        (exRestartNoGit 5000 5001)))) = [exEntry 1 ''feature/x'' 1000 5000]
   \<and> fst (startTracking (exStarted 1000 1002) exOptions (exRestartNoGit 5000 5001)) = Inl GitError
   \<and> activeTracking (store (snd (startTracking (exStarted 1000 1002) exOptions
        (exRestartNoGit 5000 5001)))) = None
   \<and> activityLog (store (snd (startTracking (exStarted 1000 1002) exOptions
        (exRestartDaemon 5000 5001)))) = []
   \<and> activeTracking (store (snd (startTracking (exStarted 1000 1002) exOptions
        (exRestartDaemon 5000 5001)))) = Some (exTracking ''feature/x'' 5000)"
proof -
  let ?w = "exStarted 1000 1002"
  let ?t = "exTracking ''feature/x'' 1000"
  have r1: "se_gitRoot (exStart 5000 5001) = Some ''/repo''" by (simp add: ex_defs)
  have r2: "se_gitRoot exStartDaemon = Some ''/repo''" by (simp add: exStartDaemon_def ex_defs)
  have r3: "se_gitRoot ((exStart 5000 5001)\<lparr>se_shouldContinue := Inl PromptClosed\<rparr>) = Some ''/repo''"
    by (simp add: ex_defs)
  have r4: "se_gitRoot (exRestart 5000 5001) = Some ''/repo''" by (simp add: exRestart_def ex_defs)
  have r5: "se_gitRoot (exRestartNoGit 5000 5001) = Some ''/repo''"
    by (simp add: exRestartNoGit_def exRestart_def ex_defs)
  have r6: "se_gitRoot (exRestartDaemon 5000 5001) = Some ''/repo''"
    by (simp add: exRestartDaemon_def exRestart_def ex_defs)
  have t: "activeTracking (store ?w) = Some ?t" by (simp add: ex_defs)
  have l1: "fst (startTracking_daemon (exStart 5000 5001) ''/repo'') = None
      \<and> se_shouldContinue (exStart 5000 5001) = Inr False"
    by (simp add: ex_defs track_defs)
  have d: "se_probe exStartDaemon = Inr True
      \<and> se_daemonBranch exStartDaemon = Inr ''feature/x''
      \<and> se_status exStartDaemon = Inr [exSession]
      \<and> find (\<lambda>s. s_directory s = ''/repo'') [exSession] = Some exSession"
    by (simp add: exStartDaemon_def exSession_def ex_defs)
  have l3: "fst (startTracking_daemon ((exStart 5000 5001)\<lparr>se_shouldContinue := Inl PromptClosed\<rparr>)
        ''/repo'') = None
      \<and> se_shouldContinue ((exStart 5000 5001)\<lparr>se_shouldContinue := Inl PromptClosed\<rparr>)
          = Inl PromptClosed"
    by (simp add: ex_defs track_defs)
  have l4: "fst (startTracking_daemon (exRestart 5000 5001) ''/repo'') = None
      \<and> se_shouldContinue (exRestart 5000 5001) = Inr True
      \<and> \<not> stopViaDaemon (se_stop (exRestart 5000 5001))
      \<and> se_branch (exRestart 5000 5001) = Inr ''feature/x''
      \<and> st_now (se_stop (exRestart 5000 5001)) = 5000"
    by (simp add: exRestart_def ex_defs track_defs)
  have l5: "fst (startTracking_daemon (exRestartNoGit 5000 5001) ''/repo'') = None
      \<and> se_shouldContinue (exRestartNoGit 5000 5001) = Inr True
      \<and> \<not> stopViaDaemon (se_stop (exRestartNoGit 5000 5001))
      \<and> se_branch (exRestartNoGit 5000 5001) = Inl GitError
      \<and> st_now (se_stop (exRestartNoGit 5000 5001)) = 5000"
    by (simp add: exRestartNoGit_def exRestart_def ex_defs track_defs)
  have l6: "fst (startTracking_daemon (exRestartDaemon 5000 5001) ''/repo'') = None
      \<and> se_shouldContinue (exRestartDaemon 5000 5001) = Inr True
      \<and> stopViaDaemon (se_stop (exRestartDaemon 5000 5001))
      \<and> se_branch (exRestartDaemon 5000 5001) = Inr ''feature/x''
      \<and> se_now (exRestartDaemon 5000 5001) = 5000"
    by (simp add: exRestartDaemon_def exStopDaemon_def exRestart_def ex_defs track_defs)
  have seg: "closedSegment (activityLog (store ?w)) ?t 5000 = exEntry 1 ''feature/x'' 1000 5000"
    by (simp add: closedSegment_def ex_defs freshId_def)
  have new: "newSession exOptions ''/repo'' ''feature/x'' 5000 = exTracking ''feature/x'' 5000"
    by (simp add: newSession_def ex_defs)
  have log0: "activityLog (store ?w) = []" by (simp add: ex_defs)
  from C2_start_on_active_session [OF r1, where w = ?w and t = ?t and opts = exOptions] l1 t
  have a: "startTracking ?w exOptions (exStart 5000 5001) = (Inr (AlreadyTrackedLocally ?t), ?w)"
    by blast
  from C2_start_on_active_session [OF r2, where b = "''feature/x''" and sessions = "[exSession]"
      and s = exSession and w = exWorld and opts = exOptions] d
  have b: "startTracking exWorld exOptions exStartDaemon
       = (Inr (AlreadyTrackedByDaemon exSession), exWorld)"
    by blast
  from C2_start_on_active_session [OF r3, where w = ?w and t = ?t and opts = exOptions
      and e = PromptClosed] l3 t
  have c: "startTracking ?w exOptions ((exStart 5000 5001)\<lparr>se_shouldContinue := Inl PromptClosed\<rparr>)
       = (Inl PromptClosed, ?w)"
    by blast
  have e: "startTracking ?w exOptions (exRestart 5000 5001)
       = (Inr Started,
          (exStarted 5000 5001)\<lparr>store := (store (exStarted 5000 5001))
             \<lparr>activityLog := [exEntry 1 ''feature/x'' 1000 5000]\<rparr>\<rparr>)"
    by (simp add: exRestart_def ex_defs track_defs Let_def)
  from C2_start_on_active_session [OF r5, where w = ?w and t = ?t and opts = exOptions
      and err = GitError] l5 t seg log0
  have f: "activityLog (store (snd (startTracking ?w exOptions (exRestartNoGit 5000 5001))))
        = [exEntry 1 ''feature/x'' 1000 5000]
      \<and> fst (startTracking ?w exOptions (exRestartNoGit 5000 5001)) = Inl GitError
      \<and> activeTracking (store (snd (startTracking ?w exOptions (exRestartNoGit 5000 5001)))) = None"
    by simp
  from C2_start_on_active_session [OF r6, where w = ?w and t = ?t and opts = exOptions
      and br = "''feature/x''"] l6 t new log0
  have g: "activityLog (store (snd (startTracking ?w exOptions (exRestartDaemon 5000 5001)))) = []
      \<and> activeTracking (store (snd (startTracking ?w exOptions (exRestartDaemon 5000 5001))))
          = Some (exTracking ''feature/x'' 5000)"
    by simp
  from r1 a b c e f g show ?thesis by (intro conjI) simp_all
qed

text \<open>
  C2 as stated fails: with a local session running since instant 1000, a \<^verbatim>\<open>startTracking\<close>
  at 5000 that is confirmed at the prompt succeeds, appends an entry to the log and replaces
  the session.
\<close>

theorem C2_no_mutation_counterexample:
  "activeTracking (store (exStarted 1000 1002)) = Some (exTracking ''feature/x'' 1000)
   \<and> fst (startTracking (exStarted 1000 1002) exOptions (exRestart 5000 5001)) = Inr Started
   \<and> activityLog (store (snd (startTracking (exStarted 1000 1002) exOptions (exRestart 5000 5001))))
       = [exEntry 1 ''feature/x'' 1000 5000]
   \<and> activeTracking (store (snd (startTracking (exStarted 1000 1002) exOptions
        (exRestart 5000 5001)))) = Some (exTracking ''feature/x'' 5000)
   \<and> snd (startTracking (exStarted 1000 1002) exOptions (exRestart 5000 5001))
       \<noteq> exStarted 1000 1002"
  by (simp add: exRestart_def ex_defs track_defs Let_def)

text \<open>
  C3 (as the code has it). A session is started at \<open>se_now\<close> on the local path; the
  auto-stop timeout is armed once, when \<^verbatim>\<open>startTracking\<close> reaches \<^verbatim>\<open>scheduleAutoStop\<close>, at
  \<open>se_armedAt\<close>, and is due 8 hours after that instant. Branch polls never move it, it does
  not fire before it is due, and it fires at most once. With no manual stop and no branch
  change, let it fire at \<open>firedAt\<close>; its callback runs \<^verbatim>\<open>stopTracking\<close>, which begins with
  the liveness probe. Once the probe has settled:

    \<^item> When that stop runs in the process, exactly one entry is produced, from the session
      start to the instant \<^verbatim>\<open>stopTracking\<close> reads the clock, and the session and its timers
      are removed. With a clock that does not go backwards that instant is at least 8 hours
      after the start, and it is the start plus 8 hours when arming, firing and the stop
      happen without delay.
    \<^item> When a daemon answers the probe of that \<^verbatim>\<open>stopTracking\<close> and takes the stop over, no
      entry is produced and the session and both intervals stay as they are.
\<close>

theorem C3_auto_stop:
  assumes start: "startTracking w0 opts senv = (Inr Started, w1)"
      and branch: "se_branch senv = Inr b"
      and quiet: "\<forall>p\<in>set polls. noChange b p"
      and due: "se_armedAt senv + MAX_TRACKING_TIME_MS \<le> firedAt"
  shows "let w2 = runPolls w1 polls; w3 = autoStopFires w2 firedAt stenv in
       (\<forall>polls'. autoStopTimer (runPolls w1 polls')
                    = Some (Pending (se_armedAt senv + MAX_TRACKING_TIME_MS)))
     \<and> (\<forall>early env'. early < se_armedAt senv + MAX_TRACKING_TIME_MS
                  \<longrightarrow> autoStopFires w2 early env' = w2)
     \<and> (\<forall>later env'. autoStopFires w3 later env' = w3)
     \<and> (\<not> stopViaDaemon stenv \<longrightarrow>
          map (\<lambda>e. (act_startTime e, act_endTime e)) (produced w1 w3)
            = [(se_now senv, Some (st_now stenv))]
          \<and> activeTracking (store w3) = None
          \<and> autoStopTimer w3 = None \<and> \<not> activeCheckInterval w3 \<and> \<not> activePulseInterval w3
          \<and> (se_now senv \<le> se_armedAt senv \<and> firedAt \<le> st_now stenv
               \<longrightarrow> se_now senv + MAX_TRACKING_TIME_MS \<le> st_now stenv)
          \<and> (se_armedAt senv = se_now senv \<and> firedAt = se_armedAt senv + MAX_TRACKING_TIME_MS
              \<and> st_now stenv = firedAt
               \<longrightarrow> map act_endTime (produced w1 w3) = [Some (se_now senv + MAX_TRACKING_TIME_MS)]))
     \<and> (stopViaDaemon stenv \<longrightarrow>
          w3 = w1\<lparr>autoStopTimer := Some Fired\<rparr> \<and> produced w1 w3 = []
          \<and> activeTracking (store w3) \<noteq> None
          \<and> activeCheckInterval w3 \<and> activePulseInterval w3)"
proof -
  from startTracking_Started [OF start] obtain t g where
    t: "activeTracking (store w1) = Some t" "tr_startTime t = se_now senv"
       "autoStopTimer w1 = Some (Pending (se_armedAt senv + MAX_TRACKING_TIME_MS))"
       "activeCheckInterval w1" "activePulseInterval w1"
    by blast
  from startTracking_branch [OF start] t(1) branch have tb: "tr_branch t = b" by auto
  have w2: "runPolls w1 polls = w1"
    using runPolls_nochange [OF t(1)] quiet tb by simp
  let ?wf = "w1\<lparr>autoStopTimer := Some Fired\<rparr>"
  let ?w3 = "autoStopFires w1 firedAt stenv"
  have fire: "?w3 = snd (stopTracking ?wf stenv)"
    using t(3) due by (simp add: autoStopFires_def)
  have tf: "activeTracking (store ?wf) = Some t" using t(1) by simp
  note st = stopTracking_local_active [OF tf, of "st_now stenv"]
  have timer: "\<forall>polls'. autoStopTimer (runPolls w1 polls')
                    = Some (Pending (se_armedAt senv + MAX_TRACKING_TIME_MS))"
    by (simp add: runPolls_timer t(3))
  have early: "\<forall>early env'. early < se_armedAt senv + MAX_TRACKING_TIME_MS
                  \<longrightarrow> autoStopFires w1 early env' = w1"
    by (simp add: autoStopFires_def t(3))
  have spent: "autoStopTimer ?w3 = None \<or> autoStopTimer ?w3 = Some Fired"
    using st by (cases "stopViaDaemon stenv") (simp_all add: fire stopTracking_def)
  then have once: "\<forall>later env'. autoStopFires ?w3 later env' = ?w3"
    by (auto simp: autoStopFires_def)
  have inproc: "map (\<lambda>e. (act_startTime e, act_endTime e)) (produced w1 ?w3)
            = [(se_now senv, Some (st_now stenv))]
          \<and> activeTracking (store ?w3) = None
          \<and> autoStopTimer ?w3 = None \<and> \<not> activeCheckInterval ?w3 \<and> \<not> activePulseInterval ?w3
          \<and> (se_now senv \<le> se_armedAt senv \<and> firedAt \<le> st_now stenv
               \<longrightarrow> se_now senv + MAX_TRACKING_TIME_MS \<le> st_now stenv)
          \<and> (se_armedAt senv = se_now senv \<and> firedAt = se_armedAt senv + MAX_TRACKING_TIME_MS
              \<and> st_now stenv = firedAt
               \<longrightarrow> map act_endTime (produced w1 ?w3) = [Some (se_now senv + MAX_TRACKING_TIME_MS)])"
    if local: "\<not> stopViaDaemon stenv"
  proof -
    from local have f: "?w3 = snd (stopTracking_local ?wf (st_now stenv))"
      by (simp add: fire stopTracking_def)
    have p: "map (\<lambda>e. (act_startTime e, act_endTime e)) (produced w1 ?w3)
            = [(se_now senv, Some (st_now stenv))]"
      using st t(2) by (simp add: f produced_def)
    have gone: "activeTracking (store ?w3) = None
          \<and> autoStopTimer ?w3 = None \<and> \<not> activeCheckInterval ?w3 \<and> \<not> activePulseInterval ?w3"
      using st by (simp add: f)
    have late: "se_now senv \<le> se_armedAt senv \<and> firedAt \<le> st_now stenv
               \<longrightarrow> se_now senv + MAX_TRACKING_TIME_MS \<le> st_now stenv"
      using due by simp
    have "map act_endTime (produced w1 ?w3) = [Some (st_now stenv)]"
      using st by (simp add: f produced_def)
    then have exact: "se_armedAt senv = se_now senv \<and> firedAt = se_armedAt senv + MAX_TRACKING_TIME_MS
              \<and> st_now stenv = firedAt
               \<longrightarrow> map act_endTime (produced w1 ?w3) = [Some (se_now senv + MAX_TRACKING_TIME_MS)]"
      by auto
    from p gone late exact show ?thesis by blast
  qed
  have handed: "?w3 = ?wf \<and> produced w1 ?w3 = []
          \<and> activeTracking (store ?w3) \<noteq> None
          \<and> activeCheckInterval ?w3 \<and> activePulseInterval ?w3"
    if "stopViaDaemon stenv"
    using that t by (simp add: fire stopTracking_def produced_def)
  show ?thesis
    unfolding Let_def w2 using timer early once inproc handed by blast
qed

theorem C3_auto_stop_witness:
  "startTracking exWorld exOptions (exStart 1000 1000) = (Inr Started, exStarted 1000 1000)
   \<and> produced (exStarted 1000 1000)
        (autoStopFires (runPolls (exStarted 1000 1000) [(901000, Inr ''feature/x'')])
           28801000 (exStop 28801000))
      = [exEntry 1 ''feature/x'' 1000 28801000]
   \<and> activeTracking (store (autoStopFires
        (runPolls (exStarted 1000 1000) [(901000, Inr ''feature/x'')])
        28801000 (exStop 28801000))) = None
   \<and> autoStopFires (runPolls (exStarted 1000 1000) [(901000, Inr ''feature/x'')])
        28801000 (exStopDaemon 28801000)
      = (exStarted 1000 1000)\<lparr>autoStopTimer := Some Fired\<rparr>"
proof -
  have h1: "startTracking exWorld exOptions (exStart 1000 1000) = (Inr Started, exStarted 1000 1000)"
    by (simp add: ex_defs track_defs)
  have h2: "se_branch (exStart 1000 1000) = Inr ''feature/x''" by (simp add: ex_defs)
  have h3: "\<forall>p\<in>set [(901000, Inr ''feature/x'')]. noChange ''feature/x'' p"
    by (simp add: noChange_def)
  have h4: "\<not> stopViaDaemon (exStop 28801000)" by (simp add: ex_defs track_defs)
  have h5: "se_armedAt (exStart 1000 1000) + MAX_TRACKING_TIME_MS \<le> 28801000"
    by (simp add: ex_defs MAX_TRACKING_TIME_MS_def)
  have h6: "stopViaDaemon (exStopDaemon 28801000)"
    by (simp add: exStopDaemon_def ex_defs track_defs)
  have v: "produced (exStarted 1000 1000)
        (autoStopFires (runPolls (exStarted 1000 1000) [(901000, Inr ''feature/x'')])
           28801000 (exStop 28801000))
      = [exEntry 1 ''feature/x'' 1000 28801000]"
    by (simp add: ex_defs track_defs autoStopFires_def Let_def)
  from C3_auto_stop [OF h1 h2 h3 h5, of "exStop 28801000"] h4
  have a: "activeTracking (store (autoStopFires
        (runPolls (exStarted 1000 1000) [(901000, Inr ''feature/x'')])
        28801000 (exStop 28801000))) = None"
    by (simp add: Let_def)
  from C3_auto_stop [OF h1 h2 h3 h5, of "exStopDaemon 28801000"] h6
  have b: "autoStopFires (runPolls (exStarted 1000 1000) [(901000, Inr ''feature/x'')])
        28801000 (exStopDaemon 28801000)
      = (exStarted 1000 1000)\<lparr>autoStopTimer := Some Fired\<rparr>"
    by (simp add: Let_def)
  from h1 v a b show ?thesis by simp
qed

text \<open>
  C3 as stated fails: a session started at instant 1000 whose timeout is armed 2 ms later
  is still running at 1000 + 8 h, and its only entry ends at 1002 + 8 h.
\<close>

theorem C3_exact_deadline_counterexample:
  "startTracking exWorld exOptions (exStart 1000 1002) = (Inr Started, exStarted 1000 1002)
   \<and> autoStopFires (exStarted 1000 1002) (1000 + MAX_TRACKING_TIME_MS)
        (exStop (1000 + MAX_TRACKING_TIME_MS))
       = exStarted 1000 1002
   \<and> map act_endTime (produced (exStarted 1000 1002)
        (autoStopFires (exStarted 1000 1002) (1002 + MAX_TRACKING_TIME_MS)
           (exStop (1002 + MAX_TRACKING_TIME_MS))))
       = [Some (1002 + MAX_TRACKING_TIME_MS)]
   \<and> Some (1002 + MAX_TRACKING_TIME_MS) \<noteq> Some (1000 + MAX_TRACKING_TIME_MS)"
  by (simp add: ex_defs track_defs autoStopFires_def Let_def)

text \<open>
  C4. Two runs of \<^verbatim>\<open>syncTempo\<close> for the same date, the second on the store the first left
  behind. The second run submits only entries that are still unsynced; an entry whose
  submission succeeded in the first run is marked synced and is never submitted again; and
  after a run an entry is synced exactly when it was synced before or one of its submissions
  succeeded.
\<close>

theorem C4_sync_idempotent:
  assumes first: "syncTempo c env1 date = (out1, c1, tr1)"
      and second: "syncTempo c1 env2 date = (out2, c2, tr2)"
  shows "(\<forall>t\<in>set tr2. \<exists>a\<in>set (activityLog c1). act_id a = fst t \<and> \<not> act_synced a)
       \<and> (\<forall>t\<in>set tr1. snd (snd t) \<longrightarrow> fst t \<notin> fst ` set tr2)
       \<and> (\<forall>t\<in>set tr1. snd (snd t) \<longrightarrow>
             (\<forall>a\<in>set (activityLog c1). act_id a = fst t \<longrightarrow> act_synced a))
       \<and> length (activityLog c1) = length (activityLog c)
       \<and> (\<forall>k<length (activityLog c).
             act_id (activityLog c1 ! k) = act_id (activityLog c ! k)
           \<and> (act_synced (activityLog c1 ! k) \<longleftrightarrow>
                act_synced (activityLog c ! k)
                \<or> (\<exists>req. (act_id (activityLog c ! k), req, True) \<in> set tr1)))"
proof -
  have attempts: "\<forall>t\<in>set tr2. \<exists>a\<in>set (activityLog c1). act_id a = fst t \<and> \<not> act_synced a"
  proof
    fix t assume t: "t \<in> set tr2"
    from syncTempo_cases [of c1 env2 date] second t
    have run: "syncTempo_local c1 env2 date = (out2, c2, tr2)" by auto
    from syncTempo_local_attempts [OF run t] obtain x where
      "x \<in> set (dateActivities c1 date)" "act_id x = fst t" by blast
    with dateActivities_member [of x c1 date]
    show "\<exists>a\<in>set (activityLog c1). act_id a = fst t \<and> \<not> act_synced a" by blast
  qed
  have marks: "length (activityLog c1) = length (activityLog c)
       \<and> (\<forall>k<length (activityLog c).
             act_id (activityLog c1 ! k) = act_id (activityLog c ! k)
           \<and> (act_synced (activityLog c1 ! k) \<longleftrightarrow>
                act_synced (activityLog c ! k)
                \<or> (\<exists>req. (act_id (activityLog c ! k), req, True) \<in> set tr1)))"
  proof (cases "syncTempo c env1 date = syncTempo_local c env1 date")
    case True
    with first have run: "syncTempo_local c env1 date = (out1, c1, tr1)" by simp
    from syncTempo_local_marks [OF run] show ?thesis by blast
  next
    case False
    with syncTempo_cases [of c env1 date] first have "c1 = c" "tr1 = []" by auto
    then show ?thesis by simp
  qed
  have marked: "\<forall>t\<in>set tr1. snd (snd t) \<longrightarrow>
             (\<forall>a\<in>set (activityLog c1). act_id a = fst t \<longrightarrow> act_synced a)"
  proof (intro ballI impI)
    fix t a assume t: "t \<in> set tr1" "snd (snd t)"
      and a: "a \<in> set (activityLog c1)" "act_id a = fst t"
    from a(1) obtain k where k: "k < length (activityLog c1)" "activityLog c1 ! k = a"
      by (auto simp: in_set_conv_nth)
    obtain i req ok where tt: "t = (i, req, ok)" by (cases t)
    with t have "(i, req, True) \<in> set tr1" by simp
    with marks k a(2) tt show "act_synced a" by auto
  qed
  have never: "\<forall>t\<in>set tr1. snd (snd t) \<longrightarrow> fst t \<notin> fst ` set tr2"
  proof (intro ballI impI notI)
    fix t assume t: "t \<in> set tr1" "snd (snd t)" and again: "fst t \<in> fst ` set tr2"
    from again obtain t2 where t2: "t2 \<in> set tr2" "fst t2 = fst t" by auto
    from attempts t2 obtain a where "a \<in> set (activityLog c1)" "act_id a = fst t" "\<not> act_synced a"
      by auto
    with marked t show False by blast
  qed
  from attempts never marked marks show ?thesis by blast
qed

theorem C4_sync_idempotent_witness:
  "syncTempo (exConfig [exShort, exNoIssue, exOpen, exLong])
     (exSync (\<lambda>i. if i = 2 then Inl RemoteError else Inr ())) ''2023-11-14''
   = (SyncComplete 2 1,
      exConfig [exShort\<lparr>act_synced := True\<rparr>, exNoIssue\<lparr>act_issueId := IssueStr ''PROJ-7''\<rparr>,
                exOpen, exLong\<lparr>act_synced := True\<rparr>],
      [(1, exWorklog (IssueNum 42) 60 ''22:13'' ''Work on branch: main'', True),
       (2, exWorklog (IssueStr ''PROJ-7'') 600 ''22:15'' ''Work on branch: feature/x'', False),
       (4, exWorklog (IssueNum 42) 600 ''22:28'' ''review'', True)])
   \<and> syncTempo
       (exConfig [exShort\<lparr>act_synced := True\<rparr>, exNoIssue\<lparr>act_issueId := IssueStr ''PROJ-7''\<rparr>,
                  exOpen, exLong\<lparr>act_synced := True\<rparr>])
       (exSync (\<lambda>i. Inr ())) ''2023-11-14''
     = (SyncComplete 1 0,
        exConfig [exShort\<lparr>act_synced := True\<rparr>,
                  exNoIssue\<lparr>act_issueId := IssueStr ''PROJ-7'', act_synced := True\<rparr>,
                  exOpen, exLong\<lparr>act_synced := True\<rparr>],
        [(2, exWorklog (IssueStr ''PROJ-7'') 600 ''22:15'' ''Work on branch: feature/x'', True)])
   \<and> (1::nat) \<notin> fst ` set [(2::nat, exWorklog (IssueStr ''PROJ-7'') 600 ''22:15''
                                      ''Work on branch: feature/x'', True)]"
proof -
  have down: "sy_probe (exSync remote) \<noteq> Inr True" for remote by (simp add: exSync_def)
  have r1: "syncTempo (exConfig [exShort, exNoIssue, exOpen, exLong])
     (exSync (\<lambda>i. if i = 2 then Inl RemoteError else Inr ())) ''2023-11-14''
   = (SyncComplete 2 1,
      exConfig [exShort\<lparr>act_synced := True\<rparr>, exNoIssue\<lparr>act_issueId := IssueStr ''PROJ-7''\<rparr>,
                exOpen, exLong\<lparr>act_synced := True\<rparr>],
      [(1, exWorklog (IssueNum 42) 60 ''22:13'' ''Work on branch: main'', True),
       (2, exWorklog (IssueStr ''PROJ-7'') 600 ''22:15'' ''Work on branch: feature/x'', False),
       (4, exWorklog (IssueNum 42) 600 ''22:28'' ''review'', True)])"
    using down ex_sync_first by (simp add: syncTempo_def exSync_def)
  have r2: "syncTempo
       (exConfig [exShort\<lparr>act_synced := True\<rparr>, exNoIssue\<lparr>act_issueId := IssueStr ''PROJ-7''\<rparr>,
                  exOpen, exLong\<lparr>act_synced := True\<rparr>])
       (exSync (\<lambda>i. Inr ())) ''2023-11-14''
     = (SyncComplete 1 0,
        exConfig [exShort\<lparr>act_synced := True\<rparr>,
                  exNoIssue\<lparr>act_issueId := IssueStr ''PROJ-7'', act_synced := True\<rparr>,
                  exOpen, exLong\<lparr>act_synced := True\<rparr>],
        [(2, exWorklog (IssueStr ''PROJ-7'') 600 ''22:15'' ''Work on branch: feature/x'', True)])"
    using down ex_sync_second by (simp add: syncTempo_def exSync_def)
  from C4_sync_idempotent [OF r1 r2]
  have "(1::nat) \<notin> fst ` set [(2::nat, exWorklog (IssueStr ''PROJ-7'') 600 ''22:15''
                                      ''Work on branch: feature/x'', True)]"
    by simp
  with r1 r2 show ?thesis by blast
qed

text \<open>
  C5 (as the code has it). In one run of the local sync, every entry that is not skipped and
  whose issue prompt is not closed is submitted, with the outcome of its own request, whatever
  happens to the others. Nothing but the \<open>synced\<close> flag and the issue id of a stored entry
  changes; the flag is set exactly for the entries with a successful submission, an entry whose
  submission failed stays unsynced, and an issue id that was present is kept (a missing one
  is replaced by the text typed at the prompt, also when the submission then fails). The
  succeeded count is the number of successful submissions; the failed count is the number of
  failed submissions plus the number of entries whose prompt was closed without an answer.
\<close>

theorem C5_partial_failure:
  assumes run: "syncTempo_local c env date = (SyncComplete s f, c', tr)"
      and ids: "distinct (map act_id (activityLog c))"
  shows "(\<forall>x\<in>set (dateActivities c date). \<not> skipped x \<and> \<not> promptClosed env x \<longrightarrow>
            (\<exists>req. (act_id x, req, sy_remote env (act_id x) = Inr ()) \<in> set tr))
       \<and> (\<forall>t\<in>set tr. snd (snd t) = (sy_remote env (fst t) = Inr ()))
       \<and> length (activityLog c') = length (activityLog c)
       \<and> (\<forall>k<length (activityLog c).
             (activityLog c' ! k)\<lparr>act_issueId := act_issueId (activityLog c ! k),
                                   act_synced := act_synced (activityLog c ! k)\<rparr>
               = activityLog c ! k
           \<and> (act_synced (activityLog c' ! k) \<longleftrightarrow>
                act_synced (activityLog c ! k)
                \<or> (\<exists>req. (act_id (activityLog c ! k), req, True) \<in> set tr))
           \<and> (issueTruthy (act_issueId (activityLog c ! k)) \<longrightarrow>
                act_issueId (activityLog c' ! k) = act_issueId (activityLog c ! k))
           \<and> ((\<exists>req. (act_id (activityLog c ! k), req, False) \<in> set tr) \<longrightarrow>
                \<not> act_synced (activityLog c' ! k)))
       \<and> s = length (filter (\<lambda>t. snd (snd t)) tr)
       \<and> f = length (filter (\<lambda>t. \<not> snd (snd t)) tr)
             + length (filter (promptClosed env) (dateActivities c date))
       \<and> s + f + length (filter skipped (dateActivities c date))
           = length (dateActivities c date)"
proof -
  let ?xs = "dateActivities c date"
  from run have acct: "strTruthy (jiraAccountId c)"
    and tr: "tr = sa_sent (syncLoop env date c ?xs)"
    and s: "s = sa_success (syncLoop env date c ?xs)"
    and f: "f = sa_fail (syncLoop env date c ?xs)"
    by (cases rule: syncTempo_local_cases; simp)+
  from syncLoop_sent [OF acct, of env date ?xs] tr
  have sent: "map sentView tr = map (sentFor env) (filter (submitted env) ?xs)" by simp
  note st = syncTempo_local_store [OF run]
  have own: "\<forall>t\<in>set tr. snd (snd t) = (sy_remote env (fst t) = Inr ())"
  proof
    fix t assume "t \<in> set tr"
    from syncTempo_local_attempts [OF run this]
    show "snd (snd t) = (sy_remote env (fst t) = Inr ())" by (auto simp: remoteOk_def)
  qed
  have all: "\<forall>x\<in>set ?xs. \<not> skipped x \<and> \<not> promptClosed env x \<longrightarrow>
            (\<exists>req. (act_id x, req, sy_remote env (act_id x) = Inr ()) \<in> set tr)"
  proof (intro ballI impI)
    fix x assume x: "x \<in> set ?xs" "\<not> skipped x \<and> \<not> promptClosed env x"
    then have "submitted env x" by (simp add: submitted_def)
    from member_sent [OF sent x(1) this]
    show "\<exists>req. (act_id x, req, sy_remote env (act_id x) = Inr ()) \<in> set tr"
      by (auto simp: remoteOk_def)
  qed
  have len: "length (activityLog c') = length (activityLog c)"
    using st by (simp add: list_all2_lengthD)
  have each: "\<forall>k<length (activityLog c).
             (activityLog c' ! k)\<lparr>act_issueId := act_issueId (activityLog c ! k),
                                   act_synced := act_synced (activityLog c ! k)\<rparr>
               = activityLog c ! k
           \<and> (act_synced (activityLog c' ! k) \<longleftrightarrow>
                act_synced (activityLog c ! k)
                \<or> (\<exists>req. (act_id (activityLog c ! k), req, True) \<in> set tr))
           \<and> (issueTruthy (act_issueId (activityLog c ! k)) \<longrightarrow>
                act_issueId (activityLog c' ! k) = act_issueId (activityLog c ! k))
           \<and> ((\<exists>req. (act_id (activityLog c ! k), req, False) \<in> set tr) \<longrightarrow>
                \<not> act_synced (activityLog c' ! k))"
  proof (intro allI impI)
    fix k assume k: "k < length (activityLog c)"
    let ?a = "activityLog c ! k" and ?a' = "activityLog c' ! k"
    from k have mem: "?a \<in> set (activityLog c)" by simp
    from evolved_nth [OF st k]
    have shape: "?a'\<lparr>act_issueId := act_issueId ?a, act_synced := act_synced ?a\<rparr> = ?a"
      and synced: "act_synced ?a' \<longleftrightarrow> act_synced ?a \<or> (\<exists>req. (act_id ?a, req, True) \<in> set tr)"
      and issue: "act_issueId ?a' = act_issueId ?a
          \<or> (\<exists>p. p \<noteq> [] \<and> act_issueId ?a' = IssueStr p
                \<and> (\<exists>y\<in>set ?xs. act_id y = act_id ?a \<and> \<not> skipped y
                       \<and> \<not> issueTruthy (act_issueId y)))"
      unfolding evolved_def by blast+
    have keep: "issueTruthy (act_issueId ?a) \<longrightarrow> act_issueId ?a' = act_issueId ?a"
    proof
      assume truthy: "issueTruthy (act_issueId ?a)"
      show "act_issueId ?a' = act_issueId ?a"
      proof (rule ccontr)
        assume "act_issueId ?a' \<noteq> act_issueId ?a"
        with issue obtain y where y: "y \<in> set ?xs" "act_id y = act_id ?a"
          "\<not> issueTruthy (act_issueId y)" by blast
        from y(1) have "y \<in> set (activityLog c)" by (simp add: dateActivities_member)
        from same_id_same_entry [OF ids this mem y(2)] y(3) truthy show False by simp
      qed
    qed
    have failed: "(\<exists>req. (act_id ?a, req, False) \<in> set tr) \<longrightarrow> \<not> act_synced ?a'"
    proof
      assume "\<exists>req. (act_id ?a, req, False) \<in> set tr"
      then obtain req where t: "(act_id ?a, req, False) \<in> set tr" ..
      from own t have bad: "sy_remote env (act_id ?a) \<noteq> Inr ()" by force
      have nosucc: "\<not> (\<exists>r. (act_id ?a, r, True) \<in> set tr)"
      proof
        assume "\<exists>r. (act_id ?a, r, True) \<in> set tr"
        then obtain r where "(act_id ?a, r, True) \<in> set tr" ..
        with own have "sy_remote env (act_id ?a) = Inr ()" by force
        with bad show False by simp
      qed
      from syncTempo_local_attempts [OF run t] obtain y where
        y: "y \<in> set ?xs" "act_id y = act_id ?a" by auto
      from y(1) have ym: "y \<in> set (activityLog c)" "\<not> act_synced y"
        by (simp_all add: dateActivities_member)
      from same_id_same_entry [OF ids ym(1) mem y(2)] ym(2) have "\<not> act_synced ?a" by simp
      with synced nosucc show "\<not> act_synced ?a'" by simp
    qed
    from shape synced keep failed
    show "?a'\<lparr>act_issueId := act_issueId ?a, act_synced := act_synced ?a\<rparr> = ?a
           \<and> (act_synced ?a' \<longleftrightarrow> act_synced ?a \<or> (\<exists>req. (act_id ?a, req, True) \<in> set tr))
           \<and> (issueTruthy (act_issueId ?a) \<longrightarrow> act_issueId ?a' = act_issueId ?a)
           \<and> ((\<exists>req. (act_id ?a, req, False) \<in> set tr) \<longrightarrow> \<not> act_synced ?a')"
      by (intro conjI)
  qed
  note cnt = syncLoop_counts [OF acct, of env date ?xs]
  note sc = sent_counts [OF sent]
  have cs: "s = length (filter (\<lambda>t. snd (snd t)) tr)"
    using cnt s sc(1) by simp
  have cf: "f = length (filter (\<lambda>t. \<not> snd (snd t)) tr)
             + length (filter (promptClosed env) ?xs)"
    using cnt f sc(2) by simp
  have "s + f = length (filter (\<lambda>y. \<not> skipped y) ?xs)"
    using cnt s f count_split [of env ?xs] by simp
  moreover have "length (filter (\<lambda>y. \<not> skipped y) ?xs) + length (filter skipped ?xs) = length ?xs"
    using sum_length_filter_compl [of skipped ?xs] by simp
  ultimately have total: "s + f + length (filter skipped ?xs) = length ?xs" by simp
  from all own len each cs cf total show ?thesis by (intro conjI)
qed

theorem C5_partial_failure_witness:
  "syncTempo_local (exConfig [exShort, exNoIssue, exOpen, exLong])
     (exSync (\<lambda>i. if i = 2 then Inl RemoteError else Inr ())) ''2023-11-14''
   = (SyncComplete 2 1,
      exConfig [exShort\<lparr>act_synced := True\<rparr>, exNoIssue\<lparr>act_issueId := IssueStr ''PROJ-7''\<rparr>,
                exOpen, exLong\<lparr>act_synced := True\<rparr>],
      [(1, exWorklog (IssueNum 42) 60 ''22:13'' ''Work on branch: main'', True),
       (2, exWorklog (IssueStr ''PROJ-7'') 600 ''22:15'' ''Work on branch: feature/x'', False),
       (4, exWorklog (IssueNum 42) 600 ''22:28'' ''review'', True)])
   \<and> distinct (map act_id (activityLog (exConfig [exShort, exNoIssue, exOpen, exLong])))
   \<and> (2::nat) = length (filter (\<lambda>t. snd (snd t))
        [(1::nat, exWorklog (IssueNum 42) 60 ''22:13'' ''Work on branch: main'', True),
         (2, exWorklog (IssueStr ''PROJ-7'') 600 ''22:15'' ''Work on branch: feature/x'', False),
         (4, exWorklog (IssueNum 42) 600 ''22:28'' ''review'', True)])
   \<and> 2 + 1 + length (filter skipped
         (dateActivities (exConfig [exShort, exNoIssue, exOpen, exLong]) ''2023-11-14''))
       = length (dateActivities (exConfig [exShort, exNoIssue, exOpen, exLong]) ''2023-11-14'')"
proof -
  have ids: "distinct (map act_id (activityLog (exConfig [exShort, exNoIssue, exOpen, exLong])))"
    by (simp add: exs_defs)
  from C5_partial_failure [OF ex_sync_first ids]
  have "(2::nat) = length (filter (\<lambda>t. snd (snd t))
        [(1::nat, exWorklog (IssueNum 42) 60 ''22:13'' ''Work on branch: main'', True),
         (2, exWorklog (IssueStr ''PROJ-7'') 600 ''22:15'' ''Work on branch: feature/x'', False),
         (4, exWorklog (IssueNum 42) 600 ''22:28'' ''review'', True)])
   \<and> 2 + 1 + length (filter skipped
         (dateActivities (exConfig [exShort, exNoIssue, exOpen, exLong]) ''2023-11-14''))
       = length (dateActivities (exConfig [exShort, exNoIssue, exOpen, exLong]) ''2023-11-14'')"
    by blast
  with ex_sync_first ids show ?thesis by blast
qed

text \<open>
  C5 as stated fails twice. An entry without issue id whose submission fails is not left
  untouched: the issue id typed at the prompt has been written to the store. And an entry whose
  prompt is closed is counted as failed although nothing was submitted.
\<close>

theorem C5_untouched_counterexample:
  "syncTempo_local (exConfig [exShort, exNoIssue, exOpen, exLong])
     (exSync (\<lambda>i. if i = 2 then Inl RemoteError else Inr ())) ''2023-11-14''
   = (SyncComplete 2 1,
      exConfig [exShort\<lparr>act_synced := True\<rparr>, exNoIssue\<lparr>act_issueId := IssueStr ''PROJ-7''\<rparr>,
                exOpen, exLong\<lparr>act_synced := True\<rparr>],
      [(1, exWorklog (IssueNum 42) 60 ''22:13'' ''Work on branch: main'', True),
       (2, exWorklog (IssueStr ''PROJ-7'') 600 ''22:15'' ''Work on branch: feature/x'', False),
       (4, exWorklog (IssueNum 42) 600 ''22:28'' ''review'', True)])
   \<and> act_issueId exNoIssue = IssueNum 0
   \<and> exNoIssue\<lparr>act_issueId := IssueStr ''PROJ-7''\<rparr> \<noteq> exNoIssue
   \<and> syncTempo_local (exConfig [exNoIssue])
        ((exSync (\<lambda>i. Inr ()))\<lparr>sy_answers := (\<lambda>i. [])\<rparr>) ''2023-11-14''
      = (SyncComplete 0 1, exConfig [exNoIssue], [])"
  using ex_sync_first ex_sync_closed by (simp add: exNoIssue_def)

text \<open>
  C6. The loop of \<^verbatim>\<open>syncTempo\<close> is meant to skip what is shorter than a minute
  (\<^verbatim>\<open>// Skip activities less than 1 minute\<close>), but it compares the duration rounded to whole
  seconds with 60. An entry of 59.5 seconds, which is below the threshold of 60 seconds, is
  therefore not skipped: it is submitted with 60 seconds of time spent, marked as synced and
  counted as succeeded.
\<close>

theorem C6_short_entry_not_skipped:
  "act_endTime exShort = Some (act_startTime exShort + 59500)
   \<and> (59500::int) < 60 * 1000
   \<and> roundDiv 59500 1000 = 60
   \<and> syncTempo_local (exConfig [exShort]) (exSync (\<lambda>i. Inr ())) ''2023-11-14''
      = (SyncComplete 1 0, exConfig [exShort\<lparr>act_synced := True\<rparr>],
         [(1, exWorklog (IssueNum 42) 60 ''22:13'' ''Work on branch: main'', True)])"
  using ex_sync_short by (simp add: exShort_def roundDiv_def)

theorem C6_short_entry_not_skipped_witness:
  "fst (syncTempo_local (exConfig [exShort]) (exSync (\<lambda>i. Inr ())) ''2023-11-14'')
     = SyncComplete 1 0
   \<and> map fst (snd (snd (syncTempo_local (exConfig [exShort]) (exSync (\<lambda>i. Inr ()))
                         ''2023-11-14''))) = [act_id exShort]
   \<and> act_synced (hd (activityLog (fst (snd (syncTempo_local (exConfig [exShort])
                         (exSync (\<lambda>i. Inr ())) ''2023-11-14'')))))"
  using C6_short_entry_not_skipped by (simp add: exShort_def exConfig_def)

text \<open>
  C7. A failing heartbeat is swallowed. \<^verbatim>\<open>sendPulse\<close>, a tick of the pulse interval and
  \<^verbatim>\<open>startPulseSending\<close> return normally whatever the remote call does, leave the state as it
  is (\<^verbatim>\<open>startPulseSending\<close> only sets its interval handle), and make at most one request:
  there is no retry. A failure is indistinguishable from a success for the caller, also for
  \<^verbatim>\<open>startTracking\<close> and its immediate heartbeat.
\<close>

theorem C7_pulse_failure_swallowed:
  "fst (sendPulse w remote) = Inr ()
   \<and> fst (snd (sendPulse w remote)) = w
   \<and> length (snd (snd (sendPulse w remote))) \<le> 1
   \<and> sendPulse w (Inl e) = sendPulse w (Inr ())
   \<and> fst (pulseTick w remote) = Inr ()
   \<and> fst (snd (pulseTick w remote)) = w
   \<and> length (snd (snd (pulseTick w remote))) \<le> 1
   \<and> pulseTick w (Inl e) = pulseTick w (Inr ())
   \<and> fst (startPulseSending w remote) = Inr ()
   \<and> store (fst (snd (startPulseSending w remote))) = store w
   \<and> length (snd (snd (startPulseSending w remote))) \<le> 1
   \<and> startPulseSending w (Inl e) = startPulseSending w (Inr ())
   \<and> startTracking w opts (env\<lparr>se_pulse := Inl e\<rparr>) = startTracking w opts (env\<lparr>se_pulse := Inr ()\<rparr>)"
proof -
  have sp: "fst (sendPulse w r) = Inr () \<and> fst (snd (sendPulse w r)) = w
      \<and> length (snd (snd (sendPulse w r))) \<le> 1" for r
    by (simp add: sendPulse_def Let_def split: option.splits sum.splits)
  have eq: "sendPulse w' (Inl e) = sendPulse w' (Inr ())" for w'
    by (simp add: sendPulse_def Let_def split: option.splits)
  have pt: "fst (pulseTick w r) = Inr () \<and> fst (snd (pulseTick w r)) = w
      \<and> length (snd (snd (pulseTick w r))) \<le> 1" for r
    using sp [of r] by (simp add: pulseTick_def)
  have st: "fst (startPulseSending w r) = Inr ()
      \<and> store (fst (snd (startPulseSending w r))) = store w
      \<and> length (snd (snd (startPulseSending w r))) \<le> 1" for r
    using sp [of r]
    by (cases "sendPulse w r") (auto simp: startPulseSending_def split: sum.splits)
  have seq: "startPulseSending w' (Inl e) = startPulseSending w' (Inr ())" for w'
    by (simp add: startPulseSending_def eq)
  have ss: "startSession w' opts (env\<lparr>se_pulse := Inl e\<rparr>) g
      = startSession w' opts (env\<lparr>se_pulse := Inr ()\<rparr>) g" for w' g
    by (simp add: startSession_def seq Let_def split: sum.splits)
  have sd: "startTracking_daemon (env\<lparr>se_pulse := Inl e\<rparr>) g
      = startTracking_daemon (env\<lparr>se_pulse := Inr ()\<rparr>) g" for g
    by (simp add: startTracking_daemon_def cong: sum.case_cong option.case_cong if_cong)
  have sl: "startTracking_local w opts (env\<lparr>se_pulse := Inl e\<rparr>) g
      = startTracking_local w opts (env\<lparr>se_pulse := Inr ()\<rparr>) g" for g
    by (simp add: startTracking_local_def ss cong: option.case_cong sum.case_cong if_cong)
  have stt: "startTracking w opts (env\<lparr>se_pulse := Inl e\<rparr>)
      = startTracking w opts (env\<lparr>se_pulse := Inr ()\<rparr>)"
    by (simp add: startTracking_def sd sl cong: option.case_cong)
  show ?thesis
    using sp [of remote] pt [of remote] st [of remote] eq [of w] seq [of w] stt
    by (simp add: pulseTick_def)
qed

theorem C7_pulse_failure_swallowed_witness:
  "sendPulse (exStarted 1000 1002) (Inl RemoteError)
     = (Inr (), exStarted 1000 1002,
        [\<lparr>p_branch = ''feature/x'', p_issueId = IssueNum 0, p_description = None,
          p_apiKey = Some ''key'', p_tempoBaseUrl = ''https://api.eu.tempo.io/4''\<rparr>])
   \<and> startTracking exWorld exOptions ((exStart 1000 1002)\<lparr>se_pulse := Inl RemoteError\<rparr>)
     = (Inr Started, exStarted 1000 1002)"
proof -
  have a: "sendPulse (exStarted 1000 1002) (Inr ())
     = (Inr (), exStarted 1000 1002,
        [\<lparr>p_branch = ''feature/x'', p_issueId = IssueNum 0, p_description = None,
          p_apiKey = Some ''key'', p_tempoBaseUrl = ''https://api.eu.tempo.io/4''\<rparr>])"
    by (simp add: ex_defs sendPulse_def Let_def)
  have b: "startTracking exWorld exOptions ((exStart 1000 1002)\<lparr>se_pulse := Inr ()\<rparr>)
     = (Inr Started, exStarted 1000 1002)"
    by (simp add: ex_defs track_defs)
  from C7_pulse_failure_swallowed [where w = "exStarted 1000 1002" and remote = "Inl RemoteError"
      and e = RemoteError and opts = exOptions and env = "exStart 1000 1002"] a
  have a': "sendPulse (exStarted 1000 1002) (Inl RemoteError)
     = (Inr (), exStarted 1000 1002,
        [\<lparr>p_branch = ''feature/x'', p_issueId = IssueNum 0, p_description = None,
          p_apiKey = Some ''key'', p_tempoBaseUrl = ''https://api.eu.tempo.io/4''\<rparr>])"
    by simp
  from C7_pulse_failure_swallowed [where w = exWorld and remote = "Inl RemoteError"
      and e = RemoteError and opts = exOptions and env = "exStart 1000 1002"] b
  have b': "startTracking exWorld exOptions ((exStart 1000 1002)\<lparr>se_pulse := Inl RemoteError\<rparr>)
     = (Inr Started, exStarted 1000 1002)"
    by simp
  from a' b' show ?thesis by simp
qed




text \<open>
  C9. Started without an issue id, or with issue id 0, local tracking stores the number 0,
  and the two cases give the same state. The status display shows no issue line for it. The
  entry written when the session is stopped carries the 0, and \<^verbatim>\<open>syncTempo\<close> never sends it:
  every request has a truthy issue id, and an entry with issue id 0 is only ever submitted
  with the non-empty text typed at the prompt.
\<close>

theorem C9_issue_zero:
  "(startTracking w opts senv = (Inr Started, w1)
      \<and> (opt_issueId opts = None \<or> opt_issueId opts = Some 0)
     \<longrightarrow> (\<exists>t. activeTracking (store w1) = Some t \<and> tr_issueId t = IssueNum 0))
   \<and> startTracking w (opts\<lparr>opt_issueId := None\<rparr>) senv
       = startTracking w (opts\<lparr>opt_issueId := Some 0\<rparr>) senv
   \<and> (tr_issueId t = IssueNum 0 \<longrightarrow> (\<forall>i. LIssue i \<notin> set (showLocalSession suenv t)))
   \<and> (activeTracking (store w) = Some t \<longrightarrow>
        act_issueId (last (activityLog (store (snd (stopTracking_local w now))))) = tr_issueId t)
   \<and> (syncTempo_local c env date = (out, c', tr) \<longrightarrow>
        (\<forall>s\<in>set tr. issueTruthy (wl_issueId (fst (snd s)))
                     \<and> wl_issueId (fst (snd s)) \<noteq> IssueNum 0))
   \<and> (syncTempo_local c env date = (out, c', tr) \<and> distinct (map act_id (activityLog c))
        \<and> x \<in> set (dateActivities c date) \<and> act_issueId x = IssueNum 0 \<longrightarrow>
        (\<forall>req ok. (act_id x, req, ok) \<in> set tr \<longrightarrow>
           (\<exists>p. p \<noteq> [] \<and> promptIssueId (sy_answers env (act_id x)) = Inr p
                \<and> wl_issueId req = IssueStr p)))"
proof -
  have a: "startTracking w opts senv = (Inr Started, w1)
      \<and> (opt_issueId opts = None \<or> opt_issueId opts = Some 0)
     \<longrightarrow> (\<exists>t. activeTracking (store w1) = Some t \<and> tr_issueId t = IssueNum 0)"
  proof
    assume h: "startTracking w opts senv = (Inr Started, w1)
      \<and> (opt_issueId opts = None \<or> opt_issueId opts = Some 0)"
    then have st: "startTracking w opts senv = (Inr Started, w1)" by simp
    from startTracking_branch [OF st] h
    show "\<exists>t. activeTracking (store w1) = Some t \<and> tr_issueId t = IssueNum 0" by auto
  qed
  have b: "startTracking w (opts\<lparr>opt_issueId := None\<rparr>) senv
       = startTracking w (opts\<lparr>opt_issueId := Some 0\<rparr>) senv"
    by (simp add: startTracking_def startTracking_local_def startSession_issue_default
        cong: option.case_cong sum.case_cong if_cong)
  have c: "tr_issueId t = IssueNum 0 \<longrightarrow> (\<forall>i. LIssue i \<notin> set (showLocalSession suenv t))"
    using showLocalSession_issue [of _ suenv t] by auto
  have d: "activeTracking (store w) = Some t \<longrightarrow>
        act_issueId (last (activityLog (store (snd (stopTracking_local w now))))) = tr_issueId t"
    using stopTracking_local_active [of w t now] by simp
  have e: "syncTempo_local c env date = (out, c', tr) \<longrightarrow>
        (\<forall>s\<in>set tr. issueTruthy (wl_issueId (fst (snd s)))
                     \<and> wl_issueId (fst (snd s)) \<noteq> IssueNum 0)"
  proof (intro impI ballI)
    fix s assume run: "syncTempo_local c env date = (out, c', tr)" and s: "s \<in> set tr"
    from syncTempo_local_attempts [OF run s] obtain y where
      y: "submitted env y" "wl_issueId (fst (snd s)) = resolvedIssue env y" by blast
    from y(1) have "issueTruthy (resolvedIssue env y)"
      by (simp add: submitted_def resolvedIssue_truthy)
    with y(2) have "issueTruthy (wl_issueId (fst (snd s)))" by simp
    then show "issueTruthy (wl_issueId (fst (snd s))) \<and> wl_issueId (fst (snd s)) \<noteq> IssueNum 0"
      by auto
  qed
  have f: "syncTempo_local c env date = (out, c', tr) \<and> distinct (map act_id (activityLog c))
        \<and> x \<in> set (dateActivities c date) \<and> act_issueId x = IssueNum 0 \<longrightarrow>
        (\<forall>req ok. (act_id x, req, ok) \<in> set tr \<longrightarrow>
           (\<exists>p. p \<noteq> [] \<and> promptIssueId (sy_answers env (act_id x)) = Inr p
                \<and> wl_issueId req = IssueStr p))"
  proof (intro impI allI)
    fix req ok
    assume h: "syncTempo_local c env date = (out, c', tr) \<and> distinct (map act_id (activityLog c))
        \<and> x \<in> set (dateActivities c date) \<and> act_issueId x = IssueNum 0"
      and t: "(act_id x, req, ok) \<in> set tr"
    from h have run: "syncTempo_local c env date = (out, c', tr)"
      and ids: "distinct (map act_id (activityLog c))"
      and x: "x \<in> set (dateActivities c date)" "act_issueId x = IssueNum 0" by simp_all
    from syncTempo_local_attempts [OF run t] obtain y where
      y: "y \<in> set (dateActivities c date)" "act_id y = act_id x" "submitted env y"
         "wl_issueId req = resolvedIssue env y" by auto
    from x(1) y(1) have "x \<in> set (activityLog c)" "y \<in> set (activityLog c)"
      by (simp_all add: dateActivities_member)
    from same_id_same_entry [OF ids this(2) this(1) y(2)] have yx: "y = x" .
    from y(3) yx x(2) obtain p where p: "promptIssueId (sy_answers env (act_id x)) = Inr p"
      by (cases "promptIssueId (sy_answers env (act_id x))")
         (auto simp: submitted_def promptClosed_def dest: promptIssueId_Inl)
    from promptIssueId_Inr [OF p] have "p \<noteq> []" .
    moreover from y(4) yx x(2) p have "wl_issueId req = IssueStr p"
      by (simp add: resolvedIssue_def)
    ultimately show "\<exists>p. p \<noteq> [] \<and> promptIssueId (sy_answers env (act_id x)) = Inr p
                \<and> wl_issueId req = IssueStr p" using p by blast
  qed
  from a b c d e f show ?thesis by (intro conjI)
qed

theorem C9_issue_zero_witness:
  "startTracking exWorld exOptions (exStart 1000 1002) = (Inr Started, exStarted 1000 1002)
   \<and> opt_issueId exOptions = None
   \<and> activeTracking (store (exStarted 1000 1002)) = Some (exTracking ''feature/x'' 1000)
   \<and> tr_issueId (exTracking ''feature/x'' 1000) = IssueNum 0
   \<and> showLocalSession exStatus (exTracking ''feature/x'' 1000)
       = [LBranch ''feature/x'', LStarted 1000, LDuration 0 10]
   \<and> (\<forall>i. LIssue i \<notin> set (showLocalSession exStatus (exTracking ''feature/x'' 1000)))
   \<and> act_issueId (last (activityLog (store (snd (stopTracking_local (exStarted 1000 1002) 601000)))))
       = IssueNum 0
   \<and> syncTempo_local (exConfig [exShort, exNoIssue, exOpen, exLong])
       (exSync (\<lambda>i. if i = 2 then Inl RemoteError else Inr ())) ''2023-11-14''
     = (SyncComplete 2 1,
        exConfig [exShort\<lparr>act_synced := True\<rparr>, exNoIssue\<lparr>act_issueId := IssueStr ''PROJ-7''\<rparr>,
                  exOpen, exLong\<lparr>act_synced := True\<rparr>],
        [(1, exWorklog (IssueNum 42) 60 ''22:13'' ''Work on branch: main'', True),
         (2, exWorklog (IssueStr ''PROJ-7'') 600 ''22:15'' ''Work on branch: feature/x'', False),
         (4, exWorklog (IssueNum 42) 600 ''22:28'' ''review'', True)])
   \<and> act_issueId exNoIssue = IssueNum 0
   \<and> (\<exists>p. p \<noteq> [] \<and> promptIssueId ['''', ''PROJ-7''] = Inr p
          \<and> wl_issueId (exWorklog (IssueStr ''PROJ-7'') 600 ''22:15'' ''Work on branch: feature/x'')
              = IssueStr p)"
proof -
  let ?c = "exConfig [exShort, exNoIssue, exOpen, exLong]"
  let ?env = "exSync (\<lambda>i. if i = 2 then Inl RemoteError else Inr ())"
  let ?req = "exWorklog (IssueStr ''PROJ-7'') 600 ''22:15'' ''Work on branch: feature/x''"
  have st: "startTracking exWorld exOptions (exStart 1000 1002) = (Inr Started, exStarted 1000 1002)"
    by (rule ex_start)
  have o: "opt_issueId exOptions = None" by (simp add: exOptions_def)
  have t: "activeTracking (store (exStarted 1000 1002)) = Some (exTracking ''feature/x'' 1000)"
    by (simp add: ex_defs)
  have z: "tr_issueId (exTracking ''feature/x'' 1000) = IssueNum 0" by (simp add: exTracking_def)
  have sh: "showLocalSession exStatus (exTracking ''feature/x'' 1000)
       = [LBranch ''feature/x'', LStarted 1000, LDuration 0 10]"
    by (simp add: showLocalSession_def exStatus_def exTracking_def roundDiv_def jsRem_def)
  have ids: "distinct (map act_id (activityLog ?c))" by (simp add: exs_defs)
  have mem: "exNoIssue \<in> set (dateActivities ?c ''2023-11-14'')"
    by (simp add: dateActivities_def startsWith_def exs_defs iso1 iso2 iso3 iso4)
  have zero: "act_issueId exNoIssue = IssueNum 0" by (simp add: exNoIssue_def)
  have sent: "(act_id exNoIssue, ?req, False) \<in> set
        [(1, exWorklog (IssueNum 42) 60 ''22:13'' ''Work on branch: main'', True),
         (2, ?req, False),
         (4, exWorklog (IssueNum 42) 600 ''22:28'' ''review'', True)]"
    by (simp add: exNoIssue_def)
  have ans: "sy_answers ?env (act_id exNoIssue) = ['''', ''PROJ-7'']" by (simp add: exSync_def)
  note inst = C9_issue_zero [where w = "exStarted 1000 1002" and t = "exTracking ''feature/x'' 1000"
      and suenv = exStatus and now = 601000 and c = ?c and env = ?env and date = "''2023-11-14''"
      and x = exNoIssue]
  from inst z have hidden: "\<forall>i. LIssue i \<notin> set (showLocalSession exStatus (exTracking ''feature/x'' 1000))"
    by blast
  from inst t z have carried:
    "act_issueId (last (activityLog (store (snd (stopTracking_local (exStarted 1000 1002) 601000)))))
       = IssueNum 0"
    by simp
  from inst ex_sync_first ids mem zero sent ans
  have asked: "\<exists>p. p \<noteq> [] \<and> promptIssueId ['''', ''PROJ-7''] = Inr p \<and> wl_issueId ?req = IssueStr p"
    by (metis (no_types, lifting))
  from st o t z sh hidden carried ex_sync_first zero asked show ?thesis by (intro conjI)
qed

text \<open>
  C10. When the branch poll fires while there is no active tracking session, nothing is
  appended to the activity log, the stored configuration is unchanged, and the polling
  interval is cleared, so that no later poll fires: every later firing leaves the whole
  process state as it is.
\<close>

theorem C10_poll_without_session:
  assumes "activeTracking (store w) = None"
  shows "store (checkCurrentBranch w now git) = store w
       \<and> activityLog (store (checkCurrentBranch w now git)) = activityLog (store w)
       \<and> \<not> activeCheckInterval (checkCurrentBranch w now git)
       \<and> activePulseInterval (checkCurrentBranch w now git) = activePulseInterval w
       \<and> autoStopTimer (checkCurrentBranch w now git) = autoStopTimer w
       \<and> branchPollFires (checkCurrentBranch w now git) now' git'
           = checkCurrentBranch w now git"
  using assms by (simp add: checkCurrentBranch_def stopBranchChecks_def branchPollFires_def)

theorem C10_poll_without_session_witness:
  "store (checkCurrentBranch
       \<lparr>store = \<lparr>apiKey = None, jiraAccountId = None, tempoBaseUrl = ''u'',
                 activeTracking = None, activityLog = []\<rparr>,
        activeCheckInterval = True, activePulseInterval = False, autoStopTimer = None\<rparr>
       900000 (Inr ''main''))
   = \<lparr>apiKey = None, jiraAccountId = None, tempoBaseUrl = ''u'',
      activeTracking = None, activityLog = []\<rparr>
   \<and> \<not> activeCheckInterval (checkCurrentBranch
       \<lparr>store = \<lparr>apiKey = None, jiraAccountId = None, tempoBaseUrl = ''u'',
                 activeTracking = None, activityLog = []\<rparr>,
        activeCheckInterval = True, activePulseInterval = False, autoStopTimer = None\<rparr>
       900000 (Inr ''main''))"
  using C10_poll_without_session
    [of "\<lparr>store = \<lparr>apiKey = None, jiraAccountId = None, tempoBaseUrl = ''u'',
                 activeTracking = None, activityLog = []\<rparr>,
        activeCheckInterval = True, activePulseInterval = False, autoStopTimer = None\<rparr>"
        900000 "Inr ''main''"]
  by simp

end
